theory Spec2Isabelle
  imports Complex_Main "HOL-Library.Product_Lexorder"
begin

section \<open>Values shared by the modules\<close>

text \<open>
  A Python \<open>str\<close> is modelled as a \<open>string\<close>: a list of characters whose codes are the
  code points below 256. A \<open>datetime.date\<close> is the triple (year, month, day); Python
  compares dates by year, then month, then day, which is the lexicographic order on the
  triple. A date object always denotes a calendar day of the years 1 to 9999
  (\<open>valid_date\<close>); the triple type is wider, so theorems that depend on it assume it.
\<close>

type_synonym date = "nat \<times> nat \<times> nat"

definition is_leap :: "nat \<Rightarrow> bool" where
  "is_leap y = (y mod 4 = 0 \<and> (y mod 100 \<noteq> 0 \<or> y mod 400 = 0))"

definition days_in_month :: "nat \<Rightarrow> nat \<Rightarrow> nat" where
  "days_in_month y m =
     (if m = 2 then (if is_leap y then 29 else 28)
      else if m = 4 \<or> m = 6 \<or> m = 9 \<or> m = 11 then 30 else 31)"

definition valid_date :: "date \<Rightarrow> bool" where
  "valid_date dt =
     (case dt of (y, m, d) \<Rightarrow>
        1 \<le> y \<and> y \<le> 9999 \<and> 1 \<le> m \<and> m \<le> 12 \<and> 1 \<le> d \<and> d \<le> days_in_month y m)"

text \<open>
  \<open>str.isspace\<close> on the code points below 256, and \<open>str.strip()\<close>, which removes the
  white space at both ends.
\<close>

definition is_space :: "char \<Rightarrow> bool" where
  "is_space c = ((of_char c :: nat) \<in> {9, 10, 11, 12, 13, 28, 29, 30, 31, 32, 133, 160})"

definition py_strip :: "string \<Rightarrow> string" where
  "py_strip s = rev (dropWhile is_space (rev (dropWhile is_space s)))"

subsection \<open>\<open>date.isoformat\<close> and \<open>date.fromisoformat\<close>\<close>

definition digit_char :: "nat \<Rightarrow> char" where
  "digit_char n = char_of (48 + n)"

definition digit_val :: "char \<Rightarrow> nat option" where
  "digit_val c =
     (if 48 \<le> (of_char c :: nat) \<and> (of_char c :: nat) \<le> 57
      then Some (of_char c - 48) else None)"

text \<open>\<open>isoformat\<close> prints \<open>%04d-%02d-%02d\<close>; the digits below are those of a date in range.\<close>

definition isoformat :: "date \<Rightarrow> string" where
  "isoformat dt =
     (case dt of (y, m, d) \<Rightarrow>
        [digit_char (y div 1000), digit_char (y div 100 mod 10),
         digit_char (y div 10 mod 10), digit_char (y mod 10), CHR ''-'',
         digit_char (m div 10), digit_char (m mod 10), CHR ''-'',
         digit_char (d div 10), digit_char (d mod 10)])"

text \<open>
  \<open>fromisoformat\<close> accepts the ten characters \<open>YYYY-MM-DD\<close> of a calendar day and raises
  \<open>ValueError\<close> (here \<open>None\<close>) on anything else. This is the format the persisted layout
  uses and \<open>isoformat\<close> prints. (From Python 3.11 on the function also reads other ISO 8601
  forms, such as \<open>20260301\<close>; they are not part of the model.)
\<close>

definition num2 :: "char \<Rightarrow> char \<Rightarrow> nat option" where
  "num2 c1 c2 =
     (case (digit_val c1, digit_val c2) of
        (Some a, Some b) \<Rightarrow> Some (10 * a + b)
      | _ \<Rightarrow> None)"

definition num4 :: "char \<Rightarrow> char \<Rightarrow> char \<Rightarrow> char \<Rightarrow> nat option" where
  "num4 c1 c2 c3 c4 =
     (case (num2 c1 c2, num2 c3 c4) of
        (Some a, Some b) \<Rightarrow> Some (100 * a + b)
      | _ \<Rightarrow> None)"

definition fromisoformat :: "string \<Rightarrow> date option" where
  "fromisoformat s =
     (case s of
        [y1, y2, y3, y4, s1, m1, m2, s2, d1, d2] \<Rightarrow>
          (case (num4 y1 y2 y3 y4, num2 m1 m2, num2 d1 d2) of
             (Some y, Some m, Some d) \<Rightarrow>
               if s1 = CHR ''-'' \<and> s2 = CHR ''-'' \<and> valid_date (y, m, d)
               then Some (y, m, d) else None
           | _ \<Rightarrow> None)
      | _ \<Rightarrow> None)"

section \<open>Entities: \<open>hotel.py\<close>, \<open>customer.py\<close>, \<open>reservation.py\<close>\<close>

text \<open>
  Each entity is a frozen dataclass. Its \<open>__post_init__\<close> raises \<open>ValueError\<close> with a
  message; the constructor functions \<open>mk_hotel\<close>, \<open>mk_customer\<close> and \<open>mk_reservation\<close>
  return \<open>Inl\<close> of that message or \<open>Inr\<close> of the object. The fields are typed
  (\<open>str\<close>, \<open>int\<close>, \<open>date\<close>), so the \<open>isinstance\<close> tests of the source hold.
\<close>

record hotel =
  hotel_id :: string
  hotel_name :: string
  rooms_total :: int

record customer =
  customer_id :: string
  customer_name :: string
  email :: string

record reservation =
  reservation_id :: string
  res_hotel_id :: string
  res_customer_id :: string
  check_in :: date
  check_out :: date
  rooms :: int

definition mk_hotel :: "string \<Rightarrow> string \<Rightarrow> int \<Rightarrow> string + hotel" where
  "mk_hotel hid nm rt =
     (if py_strip hid = [] then Inl ''hotel_id cannot be empty.''
      else if py_strip nm = [] then Inl ''name cannot be empty.''
      else if rt \<le> 0 then Inl ''rooms_total must be a positive integer.''
      else Inr \<lparr>hotel_id = hid, hotel_name = nm, rooms_total = rt\<rparr>)"

definition mk_customer :: "string \<Rightarrow> string \<Rightarrow> string \<Rightarrow> string + customer" where
  "mk_customer cid nm em =
     (if py_strip cid = [] then Inl ''customer_id cannot be empty.''
      else if py_strip nm = [] then Inl ''name cannot be empty.''
      else if CHR ''@'' \<notin> set em \<or> py_strip em = []
        then Inl ''email must be a valid email-like string (must contain '@').''
      else Inr \<lparr>customer_id = cid, customer_name = nm, email = em\<rparr>)"

definition mk_reservation ::
  "string \<Rightarrow> string \<Rightarrow> string \<Rightarrow> date \<Rightarrow> date \<Rightarrow> int \<Rightarrow> string + reservation" where
  "mk_reservation rid hid cid ci co n =
     (if py_strip rid = [] then Inl ''reservation_id cannot be empty.''
      else if py_strip hid = [] then Inl ''hotel_id cannot be empty.''
      else if py_strip cid = [] then Inl ''customer_id cannot be empty.''
      else if co \<le> ci then Inl ''check_out must be after check_in.''
      else if n \<le> 0 then Inl ''rooms must be a positive integer.''
      else Inr \<lparr>reservation_id = rid, res_hotel_id = hid, res_customer_id = cid,
                check_in = ci, check_out = co, rooms = n\<rparr>)"

section \<open>The availability engine of \<open>services.py\<close>\<close>

definition overlaps :: "date \<Rightarrow> date \<Rightarrow> date \<Rightarrow> date \<Rightarrow> bool" where
  "overlaps a_start a_end b_start b_end = (a_start < b_end \<and> b_start < a_end)"

text \<open>The loop of \<open>_rooms_booked_for_hotel\<close>, with its accumulator \<open>total\<close> (here \<open>tot\<close>).\<close>

fun rooms_booked_loop :: "reservation list \<Rightarrow> string \<Rightarrow> date \<Rightarrow> date \<Rightarrow> int \<Rightarrow> int" where
  "rooms_booked_loop [] hid ci co tot = tot"
| "rooms_booked_loop (res # rest) hid ci co tot =
     (if res_hotel_id res \<noteq> hid then rooms_booked_loop rest hid ci co tot
      else if overlaps (check_in res) (check_out res) ci co
        then rooms_booked_loop rest hid ci co (tot + rooms res)
      else rooms_booked_loop rest hid ci co tot)"

definition rooms_booked_for_hotel :: "reservation list \<Rightarrow> string \<Rightarrow> date \<Rightarrow> date \<Rightarrow> int" where
  "rooms_booked_for_hotel reservations hid ci co = rooms_booked_loop reservations hid ci co 0"

section \<open>JSON values and the record store of \<open>storage.py\<close>\<close>

text \<open>
  The value \<open>json.loads\<close> returns: \<open>None\<close>, a bool, an int, a float, a str, a list or a
  dict. A dict is an association list read with \<open>map_of\<close>. A float is a finite number or
  one of the three special values that \<open>json.loads\<close> accepts.
\<close>

datatype pyfloat = Finite rat | PosInf | NegInf | NaN

datatype json =
    JNull
  | JBool bool
  | JInt int
  | JFloat pyfloat
  | JStr string
  | JArr "json list"
  | JObj "(string \<times> json) list"

type_synonym jobject = "(string \<times> json) list"

datatype exn = KeyError | ValueError | TypeError | OverflowError | UnicodeDecodeError

text \<open>
  A file is modelled by what \<open>path.read_text(encoding="utf-8-sig")\<close>, \<open>strip()\<close> and
  \<open>json.loads\<close> make of its bytes: bytes that are not UTF-8 (\<open>read_text\<close> raises
  \<open>UnicodeDecodeError\<close>), a text that is empty after \<open>strip()\<close>, a text on which
  \<open>json.loads\<close> raises \<open>JSONDecodeError\<close>, or a text that parses to a value. The disk maps
  each of the three paths to its file, \<open>None\<close> when the file does not exist. The host file
  system is taken to carry out every creation, read and replacement of a file, so the
  \<open>OSError\<close> handlers of \<open>storage.py\<close> are entered only on a file that does not exist.
\<close>

datatype file_content = Undecodable | Blank | Malformed | Json json

datatype path = HOTELS_PATH | CUSTOMERS_PATH | RESERVATIONS_PATH

type_synonym disk = "path \<Rightarrow> file_content option"

definition ensure_file_exists :: "path \<Rightarrow> disk \<Rightarrow> disk" where
  "ensure_file_exists p d = (case d p of None \<Rightarrow> d(p \<mapsto> Json (JArr [])) | Some c \<Rightarrow> d)"

text \<open>The loop of \<open>read_json_list\<close> that keeps the dict items.\<close>

fun cleaned :: "json list \<Rightarrow> jobject list" where
  "cleaned [] = []"
| "cleaned (JObj item # data) = item # cleaned data"
| "cleaned (item # data) = cleaned data"

definition read_json_list :: "path \<Rightarrow> disk \<Rightarrow> (exn + jobject list) \<times> disk" where
  "read_json_list p d =
     (let d1 = ensure_file_exists p d in
      ((case d1 p of
          None \<Rightarrow> Inr []
        | Some Undecodable \<Rightarrow> Inl UnicodeDecodeError
        | Some Blank \<Rightarrow> Inr []
        | Some Malformed \<Rightarrow> Inr []
        | Some (Json data) \<Rightarrow> (case data of JArr items \<Rightarrow> Inr (cleaned items) | _ \<Rightarrow> Inr [])),
       d1))"

text \<open>
  \<open>write_json_list\<close> replaces the file by the text of \<open>json.dumps\<close>, which parses back to the
  list it was given (the callers pass lists of dicts of strings and integers).
\<close>

definition write_json_list :: "path \<Rightarrow> jobject list \<Rightarrow> disk \<Rightarrow> disk" where
  "write_json_list p data d = (ensure_file_exists p d)(p \<mapsto> Json (JArr (map JObj data)))"

section \<open>Serialization of the entities\<close>

text \<open>
  \<open>from_dict\<close> applies the built-ins \<open>str\<close> and \<open>int\<close> to the values of a record. \<open>str\<close> of
  a str is the str itself. The text \<open>str\<close> gives for any other value and the integer
  \<open>int\<close> reads from a str are Python's own; they are parameters of the model (\<open>pylib\<close>),
  \<open>int_of_str\<close> returning \<open>None\<close> where \<open>int\<close> raises \<open>ValueError\<close>.
\<close>

record pylib =
  str_of :: "json \<Rightarrow> string"
  int_of_str :: "string \<Rightarrow> int option"

definition py_str :: "pylib \<Rightarrow> json \<Rightarrow> string" where
  "py_str lib v = (case v of JStr s \<Rightarrow> s | _ \<Rightarrow> str_of lib v)"

definition trunc :: "rat \<Rightarrow> int" where
  "trunc q = (if 0 \<le> q then \<lfloor>q\<rfloor> else \<lceil>q\<rceil>)"

fun py_int :: "pylib \<Rightarrow> json \<Rightarrow> exn + int" where
  "py_int lib (JInt n) = Inr n"
| "py_int lib (JBool b) = Inr (if b then 1 else 0)"
| "py_int lib (JFloat (Finite q)) = Inr (trunc q)"
| "py_int lib (JFloat NaN) = Inl ValueError"
| "py_int lib (JFloat PosInf) = Inl OverflowError"
| "py_int lib (JFloat NegInf) = Inl OverflowError"
| "py_int lib (JStr s) = (case int_of_str lib s of None \<Rightarrow> Inl ValueError | Some n \<Rightarrow> Inr n)"
| "py_int lib JNull = Inl TypeError"
| "py_int lib (JArr xs) = Inl TypeError"
| "py_int lib (JObj kvs) = Inl TypeError"

definition getitem :: "jobject \<Rightarrow> string \<Rightarrow> exn + json" where
  "getitem data k = (case map_of data k of None \<Rightarrow> Inl KeyError | Some v \<Rightarrow> Inr v)"

definition parse_date :: "string \<Rightarrow> exn + date" where
  "parse_date s = (case fromisoformat s of None \<Rightarrow> Inl ValueError | Some dt \<Rightarrow> Inr dt)"

definition construct :: "string + 'a \<Rightarrow> exn + 'a" where
  "construct r = (case r of Inl msg \<Rightarrow> Inl ValueError | Inr e \<Rightarrow> Inr e)"

text \<open>Sequencing: the first exception raised ends the evaluation.\<close>

definition and_then :: "exn + 'a \<Rightarrow> ('a \<Rightarrow> exn + 'b) \<Rightarrow> exn + 'b" where
  "and_then r f = (case r of Inl ex \<Rightarrow> Inl ex | Inr v \<Rightarrow> f v)"

definition hotel_to_dict :: "hotel \<Rightarrow> jobject" where
  "hotel_to_dict h =
     [(''hotel_id'', JStr (hotel_id h)), (''name'', JStr (hotel_name h)),
      (''rooms_total'', JInt (rooms_total h))]"

definition hotel_from_dict :: "pylib \<Rightarrow> jobject \<Rightarrow> exn + hotel" where
  "hotel_from_dict lib data =
     and_then (getitem data ''hotel_id'') (\<lambda>v1.
     and_then (getitem data ''name'') (\<lambda>v2.
     and_then (getitem data ''rooms_total'') (\<lambda>v3.
     and_then (py_int lib v3) (\<lambda>n.
     construct (mk_hotel (py_str lib v1) (py_str lib v2) n)))))"

definition customer_to_dict :: "customer \<Rightarrow> jobject" where
  "customer_to_dict c =
     [(''customer_id'', JStr (customer_id c)), (''name'', JStr (customer_name c)),
      (''email'', JStr (email c))]"

definition customer_from_dict :: "pylib \<Rightarrow> jobject \<Rightarrow> exn + customer" where
  "customer_from_dict lib data =
     and_then (getitem data ''customer_id'') (\<lambda>v1.
     and_then (getitem data ''name'') (\<lambda>v2.
     and_then (getitem data ''email'') (\<lambda>v3.
     construct (mk_customer (py_str lib v1) (py_str lib v2) (py_str lib v3)))))"

definition reservation_to_dict :: "reservation \<Rightarrow> jobject" where
  "reservation_to_dict r =
     [(''reservation_id'', JStr (reservation_id r)), (''hotel_id'', JStr (res_hotel_id r)),
      (''customer_id'', JStr (res_customer_id r)),
      (''check_in'', JStr (isoformat (check_in r))),
      (''check_out'', JStr (isoformat (check_out r))), (''rooms'', JInt (rooms r))]"

definition reservation_from_dict :: "pylib \<Rightarrow> jobject \<Rightarrow> exn + reservation" where
  "reservation_from_dict lib data =
     and_then (getitem data ''reservation_id'') (\<lambda>v1.
     and_then (getitem data ''hotel_id'') (\<lambda>v2.
     and_then (getitem data ''customer_id'') (\<lambda>v3.
     and_then (getitem data ''check_in'') (\<lambda>v4.
     and_then (parse_date (py_str lib v4)) (\<lambda>ci.
     and_then (getitem data ''check_out'') (\<lambda>v5.
     and_then (parse_date (py_str lib v5)) (\<lambda>co.
     and_then (getitem data ''rooms'') (\<lambda>v6.
     and_then (py_int lib v6) (\<lambda>n.
     construct (mk_reservation (py_str lib v1) (py_str lib v2) (py_str lib v3) ci co n))))))))))"

section \<open>The services of \<open>services.py\<close>\<close>

subsection \<open>Load and save helpers\<close>

text \<open>
  The three \<open>load_*\<close> functions run the same loop: an item on which \<open>from_dict\<close> raises
  \<open>KeyError\<close>, \<open>ValueError\<close> or \<open>TypeError\<close> is skipped, any other exception leaves the
  loop and the function.
\<close>

fun load_entities :: "(jobject \<Rightarrow> exn + 'a) \<Rightarrow> jobject list \<Rightarrow> exn + 'a list" where
  "load_entities from_dict [] = Inr []"
| "load_entities from_dict (item # raw) =
     (case from_dict item of
        Inr e \<Rightarrow>
          (case load_entities from_dict raw of Inl ex \<Rightarrow> Inl ex | Inr es \<Rightarrow> Inr (e # es))
      | Inl ex \<Rightarrow>
          if ex = KeyError \<or> ex = ValueError \<or> ex = TypeError
          then load_entities from_dict raw else Inl ex)"

definition load_from :: "path \<Rightarrow> (jobject \<Rightarrow> exn + 'a) \<Rightarrow> disk \<Rightarrow> (exn + 'a list) \<times> disk" where
  "load_from p from_dict d =
     (case read_json_list p d of
        (Inl ex, d1) \<Rightarrow> (Inl ex, d1)
      | (Inr raw, d1) \<Rightarrow> (load_entities from_dict raw, d1))"

definition load_hotels :: "pylib \<Rightarrow> disk \<Rightarrow> (exn + hotel list) \<times> disk" where
  "load_hotels lib d = load_from HOTELS_PATH (hotel_from_dict lib) d"

definition save_hotels :: "hotel list \<Rightarrow> disk \<Rightarrow> disk" where
  "save_hotels hotels d = write_json_list HOTELS_PATH (map hotel_to_dict hotels) d"

definition load_customers :: "pylib \<Rightarrow> disk \<Rightarrow> (exn + customer list) \<times> disk" where
  "load_customers lib d = load_from CUSTOMERS_PATH (customer_from_dict lib) d"

definition save_customers :: "customer list \<Rightarrow> disk \<Rightarrow> disk" where
  "save_customers customers d = write_json_list CUSTOMERS_PATH (map customer_to_dict customers) d"

definition load_reservations :: "pylib \<Rightarrow> disk \<Rightarrow> (exn + reservation list) \<times> disk" where
  "load_reservations lib d = load_from RESERVATIONS_PATH (reservation_from_dict lib) d"

definition save_reservations :: "reservation list \<Rightarrow> disk \<Rightarrow> disk" where
  "save_reservations reservations d =
     write_json_list RESERVATIONS_PATH (map reservation_to_dict reservations) d"

subsection \<open>Find helpers\<close>

definition find_hotel :: "hotel list \<Rightarrow> string \<Rightarrow> hotel option" where
  "find_hotel hotels hid = find (\<lambda>h. hotel_id h = hid) hotels"

definition find_customer :: "customer list \<Rightarrow> string \<Rightarrow> customer option" where
  "find_customer customers cid = find (\<lambda>c. customer_id c = cid) customers"

definition find_reservation :: "reservation list \<Rightarrow> string \<Rightarrow> reservation option" where
  "find_reservation reservations rid = find (\<lambda>r. reservation_id r = rid) reservations"

subsection \<open>Results\<close>

text \<open>
  A service returns \<open>True\<close> (\<open>Succeeded\<close>), or prints one error message and returns
  \<open>False\<close> (\<open>Failed\<close>, with what the message reports), or is left by an exception that
  no handler catches (\<open>Raised\<close>).
\<close>

datatype kind = Hotel | Customer | Reservation

datatype failure =
    DuplicateId kind string
  | NotFound kind string
  | InvalidEntity string
  | InsufficientCapacity string int int

datatype outcome = Raised exn | Failed failure | Succeeded

subsection \<open>Hotels\<close>

definition create_hotel :: "pylib \<Rightarrow> string \<Rightarrow> string \<Rightarrow> int \<Rightarrow> disk \<Rightarrow> outcome \<times> disk" where
  "create_hotel lib hid nm rt d =
     (case load_hotels lib d of
        (Inl ex, d1) \<Rightarrow> (Raised ex, d1)
      | (Inr hotels, d1) \<Rightarrow>
          if find_hotel hotels hid \<noteq> None then (Failed (DuplicateId Hotel hid), d1)
          else (case mk_hotel hid nm rt of
                  Inl msg \<Rightarrow> (Failed (InvalidEntity msg), d1)
                | Inr h \<Rightarrow> (Succeeded, save_hotels (hotels @ [h]) d1)))"

definition delete_hotel :: "pylib \<Rightarrow> string \<Rightarrow> disk \<Rightarrow> outcome \<times> disk" where
  "delete_hotel lib hid d =
     (case load_hotels lib d of
        (Inl ex, d1) \<Rightarrow> (Raised ex, d1)
      | (Inr hotels, d1) \<Rightarrow>
          (let before = length hotels;
               hotels' = filter (\<lambda>h. hotel_id h \<noteq> hid) hotels
           in if length hotels' = before then (Failed (NotFound Hotel hid), d1)
              else (Succeeded, save_hotels hotels' d1)))"

definition modify_hotel ::
  "pylib \<Rightarrow> string \<Rightarrow> string option \<Rightarrow> int option \<Rightarrow> disk \<Rightarrow> outcome \<times> disk" where
  "modify_hotel lib hid nm rt d =
     (case load_hotels lib d of
        (Inl ex, d1) \<Rightarrow> (Raised ex, d1)
      | (Inr hotels, d1) \<Rightarrow>
          (case find_hotel hotels hid of
             None \<Rightarrow> (Failed (NotFound Hotel hid), d1)
           | Some h \<Rightarrow>
               (let new_name = (case nm of None \<Rightarrow> hotel_name h | Some n \<Rightarrow> n);
                    new_rooms = (case rt of None \<Rightarrow> rooms_total h | Some n \<Rightarrow> n)
                in case mk_hotel (hotel_id h) new_name new_rooms of
                     Inl msg \<Rightarrow> (Failed (InvalidEntity msg), d1)
                   | Inr updated \<Rightarrow>
                       (Succeeded,
                        save_hotels (map (\<lambda>x. if hotel_id x = hid then updated else x) hotels)
                          d1))))"

subsection \<open>Customers\<close>

definition create_customer ::
  "pylib \<Rightarrow> string \<Rightarrow> string \<Rightarrow> string \<Rightarrow> disk \<Rightarrow> outcome \<times> disk" where
  "create_customer lib cid nm em d =
     (case load_customers lib d of
        (Inl ex, d1) \<Rightarrow> (Raised ex, d1)
      | (Inr customers, d1) \<Rightarrow>
          if find_customer customers cid \<noteq> None then (Failed (DuplicateId Customer cid), d1)
          else (case mk_customer cid nm em of
                  Inl msg \<Rightarrow> (Failed (InvalidEntity msg), d1)
                | Inr c \<Rightarrow> (Succeeded, save_customers (customers @ [c]) d1)))"

definition delete_customer :: "pylib \<Rightarrow> string \<Rightarrow> disk \<Rightarrow> outcome \<times> disk" where
  "delete_customer lib cid d =
     (case load_customers lib d of
        (Inl ex, d1) \<Rightarrow> (Raised ex, d1)
      | (Inr customers, d1) \<Rightarrow>
          (let before = length customers;
               customers' = filter (\<lambda>c. customer_id c \<noteq> cid) customers
           in if length customers' = before then (Failed (NotFound Customer cid), d1)
              else (Succeeded, save_customers customers' d1)))"

definition modify_customer ::
  "pylib \<Rightarrow> string \<Rightarrow> string option \<Rightarrow> string option \<Rightarrow> disk \<Rightarrow> outcome \<times> disk" where
  "modify_customer lib cid nm em d =
     (case load_customers lib d of
        (Inl ex, d1) \<Rightarrow> (Raised ex, d1)
      | (Inr customers, d1) \<Rightarrow>
          (case find_customer customers cid of
             None \<Rightarrow> (Failed (NotFound Customer cid), d1)
           | Some c \<Rightarrow>
               (let new_name = (case nm of None \<Rightarrow> customer_name c | Some n \<Rightarrow> n);
                    new_email = (case em of None \<Rightarrow> email c | Some e \<Rightarrow> e)
                in case mk_customer (customer_id c) new_name new_email of
                     Inl msg \<Rightarrow> (Failed (InvalidEntity msg), d1)
                   | Inr updated \<Rightarrow>
                       (Succeeded,
                        save_customers
                          (map (\<lambda>x. if customer_id x = cid then updated else x) customers)
                          d1))))"

subsection \<open>Reservations\<close>

definition create_reservation ::
  "pylib \<Rightarrow> string \<Rightarrow> string \<Rightarrow> string \<Rightarrow> date \<Rightarrow> date \<Rightarrow> int \<Rightarrow> disk \<Rightarrow> outcome \<times> disk" where
  "create_reservation lib rid hid cid ci co n d =
     (case load_hotels lib d of
        (Inl ex, d1) \<Rightarrow> (Raised ex, d1)
      | (Inr hotels, d1) \<Rightarrow>
     (case load_customers lib d1 of
        (Inl ex, d2) \<Rightarrow> (Raised ex, d2)
      | (Inr customers, d2) \<Rightarrow>
     (case load_reservations lib d2 of
        (Inl ex, d3) \<Rightarrow> (Raised ex, d3)
      | (Inr reservations, d3) \<Rightarrow>
          if find_reservation reservations rid \<noteq> None
          then (Failed (DuplicateId Reservation rid), d3)
          else (case find_hotel hotels hid of
             None \<Rightarrow> (Failed (NotFound Hotel hid), d3)
           | Some h \<Rightarrow>
               if find_customer customers cid = None
               then (Failed (NotFound Customer cid), d3)
               else (case mk_reservation rid hid cid ci co n of
                  Inl msg \<Rightarrow> (Failed (InvalidEntity msg), d3)
                | Inr r \<Rightarrow>
                    (let already_booked = rooms_booked_for_hotel reservations hid ci co;
                         available = rooms_total h - already_booked
                     in if rooms r > available
                        then (Failed (InsufficientCapacity hid (rooms r) available), d3)
                        else (Succeeded, save_reservations (reservations @ [r]) d3)))))))"

definition cancel_reservation :: "pylib \<Rightarrow> string \<Rightarrow> disk \<Rightarrow> outcome \<times> disk" where
  "cancel_reservation lib rid d =
     (case load_reservations lib d of
        (Inl ex, d1) \<Rightarrow> (Raised ex, d1)
      | (Inr reservations, d1) \<Rightarrow>
          (let before = length reservations;
               reservations' = filter (\<lambda>r. reservation_id r \<noteq> rid) reservations
           in if length reservations' = before then (Failed (NotFound Reservation rid), d1)
              else (Succeeded, save_reservations reservations' d1)))"

section \<open>Notions of the specification\<close>

text \<open>
  The rooms of a hotel that are taken at an instant \<open>t\<close>: the sum of \<open>rooms\<close> over the
  reservations of that hotel whose interval \<open>[check_in, check_out)\<close> contains \<open>t\<close>.
\<close>

definition active_rooms :: "reservation list \<Rightarrow> string \<Rightarrow> date \<Rightarrow> int" where
  "active_rooms reservations hid t =
     sum_list (map rooms
       (filter (\<lambda>r. res_hotel_id r = hid \<and> check_in r \<le> t \<and> t < check_out r) reservations))"

text \<open>
  The collection a store holds: the content of its file, a file that does not exist
  holding the empty array (the first access creates it so). A store is kept by a step
  when its collection is the same afterwards and a file that existed is untouched.
\<close>

definition persisted :: "disk \<Rightarrow> path \<Rightarrow> file_content" where
  "persisted d p = (case d p of None \<Rightarrow> Json (JArr []) | Some c \<Rightarrow> c)"

definition store_kept :: "disk \<Rightarrow> disk \<Rightarrow> path \<Rightarrow> bool" where
  "store_kept d d' p = (persisted d' p = persisted d p \<and> (d p = None \<or> d' p = d p))"

definition stores_kept :: "disk \<Rightarrow> disk \<Rightarrow> bool" where
  "stores_kept d d' =
     (store_kept d d' HOTELS_PATH \<and> store_kept d d' CUSTOMERS_PATH
      \<and> store_kept d d' RESERVATIONS_PATH)"

text \<open>
  A file all of whose records are valid entities: it parses to an array, and every
  element is an object from which \<open>from_dict\<close> builds the entity.
\<close>

definition record_ok :: "(jobject \<Rightarrow> exn + 'a) \<Rightarrow> json \<Rightarrow> bool" where
  "record_ok from_dict item =
     (case item of
        JObj x \<Rightarrow> (case from_dict x of Inl ex \<Rightarrow> False | Inr e \<Rightarrow> True)
      | _ \<Rightarrow> False)"

definition file_valid :: "(jobject \<Rightarrow> exn + 'a) \<Rightarrow> file_content option \<Rightarrow> bool" where
  "file_valid from_dict f =
     (case f of
        Some (Json (JArr items)) \<Rightarrow> list_all (record_ok from_dict) items
      | _ \<Rightarrow> False)"

text \<open>An entity that its own constructor accepts; the dates of a reservation are dates.\<close>

definition valid_hotel :: "hotel \<Rightarrow> bool" where
  "valid_hotel h = (mk_hotel (hotel_id h) (hotel_name h) (rooms_total h) = Inr h)"

definition valid_customer :: "customer \<Rightarrow> bool" where
  "valid_customer c = (mk_customer (customer_id c) (customer_name c) (email c) = Inr c)"

definition valid_reservation :: "reservation \<Rightarrow> bool" where
  "valid_reservation r =
     (mk_reservation (reservation_id r) (res_hotel_id r) (res_customer_id r)
        (check_in r) (check_out r) (rooms r) = Inr r
      \<and> valid_date (check_in r) \<and> valid_date (check_out r))"

section \<open>Scenario data\<close>

text \<open>
  The data of the scenarios of the specification: hotel \<open>H1\<close> with ten rooms, customer
  \<open>C1\<close>, and the reservation \<open>R1\<close> of three rooms over \<open>[2026-03-01, 2026-03-05)\<close>. On
  \<open>disk0\<close> the hotels file also holds an element that is not an object, and the
  reservations file a record with missing fields and a number. \<open>lib0\<close> is one choice of
  the two built-ins.
\<close>

definition lib0 :: pylib where
  "lib0 = \<lparr>str_of = (\<lambda>v. []), int_of_str = (\<lambda>s. None)\<rparr>"

definition hotel0 :: hotel where
  "hotel0 = \<lparr>hotel_id = ''H1'', hotel_name = ''Hotel Uno'', rooms_total = 10\<rparr>"

definition customer0 :: customer where
  "customer0 =
     \<lparr>customer_id = ''C1'', customer_name = ''Edgar'', email = ''edgar@example.com''\<rparr>"

definition reservation0 :: reservation where
  "reservation0 =
     \<lparr>reservation_id = ''R1'', res_hotel_id = ''H1'', res_customer_id = ''C1'',
      check_in = (2026, 3, 1), check_out = (2026, 3, 5), rooms = 3\<rparr>"

definition disk0 :: disk where
  "disk0 = (\<lambda>p. None)
     (HOTELS_PATH \<mapsto> Json (JArr [JObj (hotel_to_dict hotel0), JStr ''x'']),
      CUSTOMERS_PATH \<mapsto> Json (JArr [JObj (customer_to_dict customer0)]),
      RESERVATIONS_PATH \<mapsto>
        Json (JArr [JObj (reservation_to_dict reservation0),
                    JObj [(''reservation_id'', JStr ''R9'')], JInt 123]))"

section \<open>Dates and their ISO text\<close>

lemma digit_val_digit_char: "k < 10 \<Longrightarrow> digit_val (digit_char k) = Some k"
  by (simp add: digit_val_def digit_char_def)

lemma digit_char_digit_val: "digit_val c = Some k \<Longrightarrow> digit_char k = c \<and> k < 10"
  by (auto simp: digit_val_def digit_char_def split: if_splits)

lemma num2_digits: "n < 100 \<Longrightarrow> num2 (digit_char (n div 10)) (digit_char (n mod 10)) = Some n"
  by (simp add: num2_def digit_val_digit_char)

lemma num2_Some:
  assumes "num2 c1 c2 = Some n"
  shows "digit_char (n div 10) = c1 \<and> digit_char (n mod 10) = c2 \<and> n < 100"
proof -
  from assms obtain a b where a: "digit_val c1 = Some a" and b: "digit_val c2 = Some b"
    and n: "n = 10 * a + b"
    by (auto simp: num2_def split: option.splits)
  from digit_char_digit_val[OF a] digit_char_digit_val[OF b]
  have "digit_char a = c1" "digit_char b = c2" "a < 10" "b < 10" by auto
  moreover from \<open>a < 10\<close> \<open>b < 10\<close> have "n div 10 = a" "n mod 10 = b" "n < 100"
    unfolding n by auto
  ultimately show ?thesis by simp
qed

lemma div_1000: "(n::nat) div 1000 = n div 100 div 10"
  by (simp add: div_mult2_eq)

lemma mod_10: "(n::nat) mod 10 = n mod 100 mod 10"
  by (simp add: mod_mod_cancel)

lemma div_10_mod_10: "(n::nat) div 10 mod 10 = n mod 100 div 10"
proof -
  have "n mod 100 = 10 * (n div 10 mod 10) + n mod 10"
    using mod_mult2_eq[of n 10 10] by simp
  then show ?thesis by simp
qed

lemma num4_digits:
  assumes "n < 10000"
  shows "num4 (digit_char (n div 1000)) (digit_char (n div 100 mod 10))
           (digit_char (n div 10 mod 10)) (digit_char (n mod 10)) = Some n"
proof -
  have hi: "n div 100 < 100" using assms by simp
  have lo: "n mod 100 < 100" by simp
  have "num2 (digit_char (n div 1000)) (digit_char (n div 100 mod 10)) = Some (n div 100)"
    unfolding div_1000 by (rule num2_digits[OF hi])
  moreover
  have "num2 (digit_char (n div 10 mod 10)) (digit_char (n mod 10)) = Some (n mod 100)"
    unfolding div_10_mod_10 mod_10[of n] by (rule num2_digits[OF lo])
  ultimately show ?thesis by (simp add: num4_def)
qed

lemma num4_Some:
  assumes "num4 c1 c2 c3 c4 = Some n"
  shows "digit_char (n div 1000) = c1 \<and> digit_char (n div 100 mod 10) = c2 \<and>
         digit_char (n div 10 mod 10) = c3 \<and> digit_char (n mod 10) = c4"
proof -
  from assms obtain a b where a: "num2 c1 c2 = Some a" and b: "num2 c3 c4 = Some b"
    and n: "n = 100 * a + b"
    by (auto simp: num4_def split: option.splits)
  note A = num2_Some[OF a] and B = num2_Some[OF b]
  from B have hi: "n div 100 = a" and lo: "n mod 100 = b" unfolding n by simp_all
  have "n div 1000 = a div 10" "n div 100 mod 10 = a mod 10"
       "n div 10 mod 10 = b div 10" "n mod 10 = b mod 10"
    using hi lo by (simp_all add: div_1000 div_10_mod_10 mod_10[of n])
  with A B show ?thesis by simp
qed

lemma days_in_month_le: "days_in_month y m \<le> 31"
  by (simp add: days_in_month_def)

lemma fromisoformat_isoformat:
  assumes "valid_date dt"
  shows "fromisoformat (isoformat dt) = Some dt"
proof -
  obtain y m d where dt: "dt = (y, m, d)" by (cases dt) auto
  from assms dt have y: "y < 10000" and m: "m < 100" and d: "d < 100"
    using days_in_month_le[of y m] by (auto simp: valid_date_def)
  show ?thesis
    using assms unfolding dt
    by (simp add: fromisoformat_def isoformat_def num4_digits[OF y] num2_digits[OF m]
        num2_digits[OF d])
qed

lemma fromisoformat_Some:
  assumes "fromisoformat s = Some dt"
  shows "isoformat dt = s \<and> valid_date dt"
proof -
  from assms obtain y1 y2 y3 y4 s1 m1 m2 s2 d1 d2
    where s: "s = [y1, y2, y3, y4, s1, m1, m2, s2, d1, d2]"
    by (simp add: fromisoformat_def split: list.splits)
  from assms obtain y m d where
    y: "num4 y1 y2 y3 y4 = Some y" and m: "num2 m1 m2 = Some m" and d: "num2 d1 d2 = Some d"
    and rest: "s1 = CHR ''-''" "s2 = CHR ''-''" "valid_date (y, m, d)" "dt = (y, m, d)"
    unfolding s by (auto simp: fromisoformat_def split: option.splits if_splits)
  from num4_Some[OF y] num2_Some[OF m] num2_Some[OF d] rest
  show ?thesis unfolding s by (simp add: isoformat_def)
qed

section \<open>Entities and their records\<close>

lemma and_then_Inr_iff:
  "and_then r f = Inr y \<longleftrightarrow> (\<exists>v. r = Inr v \<and> f v = Inr y)"
  by (cases r) (simp_all add: and_then_def)

lemma construct_Inr_iff: "construct r = Inr e \<longleftrightarrow> r = Inr e"
  by (cases r) (simp_all add: construct_def)

lemma getitem_Inr_iff: "getitem data k = Inr v \<longleftrightarrow> map_of data k = Some v"
  by (simp add: getitem_def split: option.splits)

lemma parse_date_Inr_iff: "parse_date s = Inr dt \<longleftrightarrow> fromisoformat s = Some dt"
  by (simp add: parse_date_def split: option.splits)

lemma mk_hotel_Inr:
  "mk_hotel a b n = Inr h \<Longrightarrow> h = \<lparr>hotel_id = a, hotel_name = b, rooms_total = n\<rparr> \<and> valid_hotel h"
  by (auto simp: mk_hotel_def valid_hotel_def split: if_splits)

lemma mk_customer_Inr:
  "mk_customer a b e = Inr c \<Longrightarrow>
     c = \<lparr>customer_id = a, customer_name = b, email = e\<rparr> \<and> valid_customer c"
  by (auto simp: mk_customer_def valid_customer_def split: if_splits)

lemma mk_reservation_Inr:
  "mk_reservation a b c ci co n = Inr r \<Longrightarrow>
     r = \<lparr>reservation_id = a, res_hotel_id = b, res_customer_id = c,
          check_in = ci, check_out = co, rooms = n\<rparr>
     \<and> mk_reservation (reservation_id r) (res_hotel_id r) (res_customer_id r)
          (check_in r) (check_out r) (rooms r) = Inr r \<and> 0 < n"
  by (auto simp: mk_reservation_def split: if_splits)

lemma hotel_from_dict_valid: "hotel_from_dict lib x = Inr h \<Longrightarrow> valid_hotel h"
  by (auto simp: hotel_from_dict_def and_then_Inr_iff construct_Inr_iff dest: mk_hotel_Inr)

lemma customer_from_dict_valid: "customer_from_dict lib x = Inr c \<Longrightarrow> valid_customer c"
  by (auto simp: customer_from_dict_def and_then_Inr_iff construct_Inr_iff dest: mk_customer_Inr)

lemma reservation_from_dict_valid:
  assumes "reservation_from_dict lib x = Inr r"
  shows "valid_reservation r"
proof -
  from assms obtain a b c s1 s2 ci co n where
    ci: "fromisoformat s1 = Some ci" and co: "fromisoformat s2 = Some co"
    and mk: "mk_reservation a b c ci co n = Inr r"
    by (auto simp: reservation_from_dict_def and_then_Inr_iff construct_Inr_iff
        parse_date_Inr_iff)
  have req: "r = \<lparr>reservation_id = a, res_hotel_id = b, res_customer_id = c,
          check_in = ci, check_out = co, rooms = n\<rparr>"
    using mk_reservation_Inr[OF mk] by (rule conjunct1)
  have r: "check_in r = ci" "check_out r = co" by (simp_all add: req)
  have ok: "mk_reservation (reservation_id r) (res_hotel_id r) (res_customer_id r)
          (check_in r) (check_out r) (rooms r) = Inr r"
    using mk by (simp add: req)
  from fromisoformat_Some[OF ci] fromisoformat_Some[OF co]
  have "valid_date ci" "valid_date co" by simp_all
  with r ok show ?thesis unfolding valid_reservation_def by simp
qed

lemma hotel_from_dict_to_dict:
  "valid_hotel h \<Longrightarrow> hotel_from_dict lib (hotel_to_dict h) = Inr h"
  by (simp add: valid_hotel_def hotel_from_dict_def hotel_to_dict_def getitem_def
      and_then_def py_str_def construct_def)

lemma customer_from_dict_to_dict:
  "valid_customer c \<Longrightarrow> customer_from_dict lib (customer_to_dict c) = Inr c"
  by (simp add: valid_customer_def customer_from_dict_def customer_to_dict_def getitem_def
      and_then_def py_str_def construct_def)

lemma reservation_from_dict_to_dict:
  "valid_reservation r \<Longrightarrow> reservation_from_dict lib (reservation_to_dict r) = Inr r"
  by (simp add: valid_reservation_def reservation_from_dict_def reservation_to_dict_def
      getitem_def and_then_def py_str_def construct_def parse_date_def
      fromisoformat_isoformat)

section \<open>Loading\<close>

lemma load_entities_set:
  "load_entities f raw = Inr es \<Longrightarrow> e \<in> set es \<Longrightarrow> \<exists>x \<in> set raw. f x = Inr e"
proof (induction raw arbitrary: es)
  case Nil
  then show ?case by simp
next
  case (Cons x raw)
  then show ?case
    by (auto split: sum.splits if_splits)
qed

lemma load_entities_map:
  "\<forall>e \<in> set es. f (g e) = Inr e \<Longrightarrow> load_entities f (map g es) = Inr es"
  by (induction es) simp_all

lemma cleaned_map_JObj: "cleaned (map JObj xs) = xs"
  by (induction xs) simp_all

section \<open>The record store\<close>

lemma ensure_file_exists_apply:
  "ensure_file_exists p d q = (if q = p then Some (persisted d p) else d q)"
  by (simp add: ensure_file_exists_def persisted_def split: option.splits)

lemma persisted_ensure_file_exists: "persisted (ensure_file_exists p d) q = persisted d q"
  by (simp add: persisted_def ensure_file_exists_apply)

lemma store_kept_refl: "store_kept d d p"
  by (simp add: store_kept_def)

lemma store_kept_trans: "store_kept d d' p \<Longrightarrow> store_kept d' d'' p \<Longrightarrow> store_kept d d'' p"
  by (auto simp: store_kept_def)

lemma store_kept_ensure: "store_kept d (ensure_file_exists p d) q"
  by (auto simp: store_kept_def persisted_ensure_file_exists ensure_file_exists_apply
      persisted_def split: option.splits)

lemma stores_kept_refl: "stores_kept d d"
  by (simp add: stores_kept_def store_kept_refl)

lemma stores_kept_trans: "stores_kept d d' \<Longrightarrow> stores_kept d' d'' \<Longrightarrow> stores_kept d d''"
  unfolding stores_kept_def by (blast intro: store_kept_trans)

lemma stores_kept_ensure: "stores_kept d (ensure_file_exists p d)"
  by (simp add: stores_kept_def store_kept_ensure)

lemma snd_read_json_list: "snd (read_json_list p d) = ensure_file_exists p d"
  by (simp add: read_json_list_def Let_def)

lemma fst_read_json_list:
  "fst (read_json_list p d) =
     (case persisted d p of
        Undecodable \<Rightarrow> Inl UnicodeDecodeError
      | Json (JArr items) \<Rightarrow> Inr (cleaned items)
      | _ \<Rightarrow> Inr [])"
  by (simp add: read_json_list_def Let_def ensure_file_exists_apply
      split: file_content.splits json.splits)

lemma snd_load_from: "snd (load_from p f d) = ensure_file_exists p d"
  using snd_read_json_list[of p d]
  by (auto simp: load_from_def split: prod.splits sum.splits)

lemma fst_load_from:
  "fst (load_from p f d) =
     (case fst (read_json_list p d) of Inl ex \<Rightarrow> Inl ex | Inr raw \<Rightarrow> load_entities f raw)"
  by (auto simp: load_from_def split: prod.splits sum.splits)

lemma fst_load_from_cong:
  "persisted d' p = persisted d p \<Longrightarrow> fst (load_from p f d') = fst (load_from p f d)"
  by (simp add: fst_load_from fst_read_json_list)

lemma load_from_eq: "load_from p f d = (fst (load_from p f d), ensure_file_exists p d)"
  using snd_load_from[of p f d] by (cases "load_from p f d") simp

lemma write_json_list_apply:
  "write_json_list p data d q =
     (if q = p then Some (Json (JArr (map JObj data))) else d q)"
  by (simp add: write_json_list_def ensure_file_exists_apply)

lemma fst_load_from_write:
  assumes "\<forall>e \<in> set es. f (g e) = Inr e"
  shows "fst (load_from p f (write_json_list p (map g es) d)) = Inr es"
proof -
  have "cleaned (map JObj (map g es)) = map g es" by (rule cleaned_map_JObj)
  then show ?thesis
    using load_entities_map[OF assms]
    by (simp add: fst_load_from fst_read_json_list persisted_def write_json_list_apply
        del: map_map)
qed

lemma store_kept_write: "q \<noteq> p \<Longrightarrow> store_kept d (write_json_list p data d) q"
  by (simp add: store_kept_def persisted_def write_json_list_apply)

section \<open>Availability\<close>

lemma rooms_booked_loop_sum:
  "rooms_booked_loop rs hid ci co tot =
     tot + sum_list (map rooms
       (filter (\<lambda>r. res_hotel_id r = hid \<and> overlaps (check_in r) (check_out r) ci co) rs))"
  by (induction rs arbitrary: tot) simp_all

lemma rooms_booked_for_hotel_sum:
  "rooms_booked_for_hotel rs hid ci co =
     sum_list (map rooms
       (filter (\<lambda>r. res_hotel_id r = hid \<and> overlaps (check_in r) (check_out r) ci co) rs))"
  by (simp add: rooms_booked_for_hotel_def rooms_booked_loop_sum)

lemma active_rooms_le_booked:
  assumes "\<forall>r \<in> set rs. 0 \<le> rooms r" and "ci \<le> t" and "t < co"
  shows "active_rooms rs hid t \<le> rooms_booked_for_hotel rs hid ci co"
  using assms(1)
proof (induction rs)
  case Nil
  then show ?case by (simp add: active_rooms_def rooms_booked_for_hotel_sum)
next
  case (Cons r rs)
  then have IH: "active_rooms rs hid t \<le> rooms_booked_for_hotel rs hid ci co"
    and r: "0 \<le> rooms r" by simp_all
  have "check_in r \<le> t \<Longrightarrow> t < check_out r \<Longrightarrow> overlaps (check_in r) (check_out r) ci co"
    using assms(2,3) by (auto simp: overlaps_def)
  with IH r show ?case
    by (auto simp: active_rooms_def rooms_booked_for_hotel_sum)
qed

lemma active_rooms_append:
  "active_rooms (rs @ [r]) hid t =
     active_rooms rs hid t
     + (if res_hotel_id r = hid \<and> check_in r \<le> t \<and> t < check_out r then rooms r else 0)"
  by (simp add: active_rooms_def)

section \<open>Finding by id\<close>

lemma find_hotel_None: "find_hotel hs hid = None \<longleftrightarrow> hid \<notin> hotel_id ` set hs"
  by (auto simp: find_hotel_def find_None_iff)

lemma find_customer_None: "find_customer cs cid = None \<longleftrightarrow> cid \<notin> customer_id ` set cs"
  by (auto simp: find_customer_def find_None_iff)

lemma find_reservation_None:
  "find_reservation rs rid = None \<longleftrightarrow> rid \<notin> reservation_id ` set rs"
  by (auto simp: find_reservation_def find_None_iff)

lemma find_hotel_Some: "find_hotel hs hid = Some h \<Longrightarrow> h \<in> set hs \<and> hotel_id h = hid"
  by (auto simp: find_hotel_def find_Some_iff)

lemma find_customer_Some:
  "find_customer cs cid = Some c \<Longrightarrow> c \<in> set cs \<and> customer_id c = cid"
  by (auto simp: find_customer_def find_Some_iff)

section \<open>What the loads return\<close>

lemma load_hotels_valid:
  "fst (load_hotels lib d) = Inr hs \<Longrightarrow> h \<in> set hs \<Longrightarrow> valid_hotel h"
  by (auto simp: load_hotels_def fst_load_from split: sum.splits
      dest!: load_entities_set dest: hotel_from_dict_valid)

lemma load_customers_valid:
  "fst (load_customers lib d) = Inr cs \<Longrightarrow> c \<in> set cs \<Longrightarrow> valid_customer c"
  by (auto simp: load_customers_def fst_load_from split: sum.splits
      dest!: load_entities_set dest: customer_from_dict_valid)

lemma load_reservations_valid:
  "fst (load_reservations lib d) = Inr rs \<Longrightarrow> r \<in> set rs \<Longrightarrow> valid_reservation r"
  by (auto simp: load_reservations_def fst_load_from split: sum.splits
      dest!: load_entities_set dest: reservation_from_dict_valid)

lemma valid_reservation_rooms: "valid_reservation r \<Longrightarrow> 0 < rooms r"
  by (auto simp: valid_reservation_def dest: mk_reservation_Inr)

section \<open>The steps of \<open>create_reservation\<close>\<close>

lemma create_reservation_loaded:
  assumes H: "fst (load_hotels lib d) = Inr hotels"
    and C: "fst (load_customers lib d) = Inr customers"
    and R: "fst (load_reservations lib d) = Inr reservations"
  shows "create_reservation lib rid hid cid ci co n d =
    (let d3 = ensure_file_exists RESERVATIONS_PATH
                (ensure_file_exists CUSTOMERS_PATH (ensure_file_exists HOTELS_PATH d))
     in if find_reservation reservations rid \<noteq> None
        then (Failed (DuplicateId Reservation rid), d3)
        else (case find_hotel hotels hid of
           None \<Rightarrow> (Failed (NotFound Hotel hid), d3)
         | Some h \<Rightarrow>
             if find_customer customers cid = None
             then (Failed (NotFound Customer cid), d3)
             else (case mk_reservation rid hid cid ci co n of
                Inl msg \<Rightarrow> (Failed (InvalidEntity msg), d3)
              | Inr r \<Rightarrow>
                  if rooms r > rooms_total h - rooms_booked_for_hotel reservations hid ci co
                  then (Failed (InsufficientCapacity hid (rooms r)
                          (rooms_total h - rooms_booked_for_hotel reservations hid ci co)), d3)
                  else (Succeeded, save_reservations (reservations @ [r]) d3))))"
proof -
  let ?d1 = "ensure_file_exists HOTELS_PATH d"
  let ?d2 = "ensure_file_exists CUSTOMERS_PATH ?d1"
  let ?d3 = "ensure_file_exists RESERVATIONS_PATH ?d2"
  have lh: "load_hotels lib d = (Inr hotels, ?d1)"
    using H load_from_eq[of HOTELS_PATH "hotel_from_dict lib" d]
    by (simp add: load_hotels_def)
  have "fst (load_customers lib ?d1) = fst (load_customers lib d)"
    unfolding load_customers_def
    by (rule fst_load_from_cong) (rule persisted_ensure_file_exists)
  then have lc: "load_customers lib ?d1 = (Inr customers, ?d2)"
    using C load_from_eq[of CUSTOMERS_PATH "customer_from_dict lib" ?d1]
    by (simp add: load_customers_def)
  have "fst (load_reservations lib ?d2) = fst (load_reservations lib d)"
    unfolding load_reservations_def
    by (rule fst_load_from_cong) (simp add: persisted_ensure_file_exists)
  then have lr: "load_reservations lib ?d2 = (Inr reservations, ?d3)"
    using R load_from_eq[of RESERVATIONS_PATH "reservation_from_dict lib" ?d2]
    by (simp add: load_reservations_def)
  show ?thesis
    by (auto simp: create_reservation_def lh lc lr Let_def split: option.splits sum.splits)
qed

section \<open>The scenario data, loaded\<close>

lemma disk0_hotels: "fst (load_hotels lib0 disk0) = Inr [hotel0]"
  by code_simp

lemma disk0_customers: "fst (load_customers lib0 disk0) = Inr [customer0]"
  by code_simp

lemma disk0_reservations: "fst (load_reservations lib0 disk0) = Inr [reservation0]"
  by code_simp

section \<open>The overlap predicate\<close>

text \<open>
  Claim C2. The overlap predicate on the half-open intervals \<open>[a_start, a_end)\<close> and
  \<open>[b_start, b_end)\<close> is true exactly when \<open>a_start < b_end\<close> and \<open>b_start < a_end\<close>; it is
  symmetric in the two intervals; \<open>[2026-03-01, 2026-03-05)\<close> does not overlap
  \<open>[2026-03-05, 2026-03-08)\<close>, and it does overlap \<open>[2026-03-04, 2026-03-06)\<close>.
\<close>

theorem overlaps_half_open_symmetric:
  "(overlaps a_start a_end b_start b_end \<longleftrightarrow> a_start < b_end \<and> b_start < a_end)
   \<and> overlaps a_start a_end b_start b_end = overlaps b_start b_end a_start a_end
   \<and> \<not> overlaps (2026, 3, 1) (2026, 3, 5) (2026, 3, 5) (2026, 3, 8)
   \<and> overlaps (2026, 3, 1) (2026, 3, 5) (2026, 3, 4) (2026, 3, 6)"
  by (auto simp: overlaps_def less_prod_def')

section \<open>Capacity\<close>

text \<open>
  Claim C1. Capacity is preserved by a successful \<open>create_reservation\<close>. Let the call
  load \<open>hotels\<close>, \<open>customers\<close> and \<open>reservations\<close> and return success. Then the
  reservations file holds the loaded reservations with the new reservation \<open>r\<close> appended,
  and for every hotel \<open>H\<close> (the hotel that an id \<open>hid'\<close> denotes among the loaded hotels):
  if before the call the rooms of \<open>H\<close> taken at an instant never exceeded
  \<open>rooms_total H\<close>, they do not exceed it after the call either, at every instant.
\<close>

theorem create_reservation_keeps_capacity:
  assumes H: "fst (load_hotels lib d) = Inr hotels"
    and C: "fst (load_customers lib d) = Inr customers"
    and R: "fst (load_reservations lib d) = Inr reservations"
    and ok: "create_reservation lib rid hid cid ci co n d = (Succeeded, d')"
    and fh: "find_hotel hotels hid' = Some H"
    and inv: "\<forall>t. active_rooms reservations hid' t \<le> rooms_total H"
  shows "\<exists>r. mk_reservation rid hid cid ci co n = Inr r
    \<and> d' RESERVATIONS_PATH =
        Some (Json (JArr (map JObj (map reservation_to_dict (reservations @ [r])))))
    \<and> (\<forall>t. active_rooms (reservations @ [r]) hid' t \<le> rooms_total H)"
proof -
  let ?d3 = "ensure_file_exists RESERVATIONS_PATH
                (ensure_file_exists CUSTOMERS_PATH (ensure_file_exists HOTELS_PATH d))"
  let ?booked = "rooms_booked_for_hotel reservations hid ci co"
  from ok obtain h r where h: "find_hotel hotels hid = Some h"
    and r: "mk_reservation rid hid cid ci co n = Inr r"
    and cap: "rooms r \<le> rooms_total h - ?booked"
    and d': "d' = save_reservations (reservations @ [r]) ?d3"
    unfolding create_reservation_loaded[OF H C R]
    by (auto simp: Let_def split: if_splits option.splits sum.splits)
  have stored: "d' RESERVATIONS_PATH =
      Some (Json (JArr (map JObj (map reservation_to_dict (reservations @ [r])))))"
    unfolding d' by (simp add: save_reservations_def write_json_list_apply)
  have flds: "res_hotel_id r = hid" "check_in r = ci" "check_out r = co"
    using mk_reservation_Inr[OF r] by auto
  have nonneg: "\<forall>x \<in> set reservations. 0 \<le> rooms x"
    using load_reservations_valid[OF R] valid_reservation_rooms by fastforce
  have "active_rooms (reservations @ [r]) hid' t \<le> rooms_total H" for t
  proof (cases "hid = hid' \<and> ci \<le> t \<and> t < co")
    case True
    then have "h = H" using h fh by simp
    moreover have "active_rooms reservations hid t \<le> ?booked"
      using True nonneg by (intro active_rooms_le_booked) auto
    ultimately show ?thesis
      using True cap flds by (simp add: active_rooms_append)
  next
    case False
    then show ?thesis using inv[rule_format, of t] flds by (auto simp: active_rooms_append)
  qed
  with r stored show ?thesis by blast
qed


text \<open>
  Scenario: \<open>H1\<close> has ten rooms and \<open>R1\<close> holds three of them; \<open>R2\<close> asks for two rooms
  over \<open>[2026-03-02, 2026-03-04)\<close> and is accepted.
\<close>

theorem create_reservation_keeps_capacity_witness:
  "fst (create_reservation lib0 ''R2'' ''H1'' ''C1'' (2026, 3, 2) (2026, 3, 4) 2 disk0) = Succeeded
   \<and> find_hotel [hotel0] ''H1'' = Some hotel0
   \<and> (\<forall>t. active_rooms [reservation0] ''H1'' t \<le> rooms_total hotel0)
   \<and> (\<forall>t. active_rooms
          [reservation0,
           \<lparr>reservation_id = ''R2'', res_hotel_id = ''H1'', res_customer_id = ''C1'',
            check_in = (2026, 3, 2), check_out = (2026, 3, 4), rooms = 2\<rparr>] ''H1'' t
        \<le> rooms_total hotel0)"
proof -
  let ?call = "create_reservation lib0 ''R2'' ''H1'' ''C1'' (2026, 3, 2) (2026, 3, 4) 2 disk0"
  let ?r2 = "\<lparr>reservation_id = ''R2'', res_hotel_id = ''H1'', res_customer_id = ''C1'',
            check_in = (2026, 3, 2), check_out = (2026, 3, 4), rooms = 2\<rparr>"
  have s: "fst ?call = Succeeded" by code_simp
  then have ok: "?call = (Succeeded, snd ?call)" by (metis prod.collapse)
  have fh: "find_hotel [hotel0] ''H1'' = Some hotel0" by code_simp
  have inv: "\<forall>t. active_rooms [reservation0] ''H1'' t \<le> rooms_total hotel0"
    by (simp add: active_rooms_def reservation0_def hotel0_def)
  have mk: "mk_reservation ''R2'' ''H1'' ''C1'' (2026, 3, 2) (2026, 3, 4) 2 = Inr ?r2"
    by code_simp
  from create_reservation_keeps_capacity
    [OF disk0_hotels disk0_customers disk0_reservations ok fh inv]
  have "\<forall>t. active_rooms ([reservation0] @ [?r2]) ''H1'' t \<le> rooms_total hotel0"
    unfolding mk by simp
  with s fh inv show ?thesis by simp
qed

section \<open>The capacity check\<close>

text \<open>
  Claim C3. \<open>rooms_committed\<close> (\<open>_rooms_booked_for_hotel\<close>) is the sum of \<open>rooms\<close> over
  exactly the reservations of the list whose hotel id matches and whose interval overlaps
  the range. When \<open>create_reservation\<close> reaches the capacity check (the id is new, the
  hotel \<open>h\<close> and the customer are found, the reservation is valid), it computes
  \<open>available\<close> as \<open>rooms_total h\<close> minus that sum over the loaded reservations, fails
  with \<open>InsufficientCapacity\<close> exactly when the requested rooms exceed \<open>available\<close>, and the
  failure reports the requested rooms and \<open>available\<close>.
\<close>

theorem rooms_committed_and_capacity_check:
  "rooms_booked_for_hotel rs hid ci co =
     sum_list (map rooms
       (filter (\<lambda>r. res_hotel_id r = hid \<and> overlaps (check_in r) (check_out r) ci co) rs))
   \<and> (fst (load_hotels lib d) = Inr hotels \<longrightarrow>
      fst (load_customers lib d) = Inr customers \<longrightarrow>
      fst (load_reservations lib d) = Inr rs \<longrightarrow>
      find_reservation rs rid = None \<longrightarrow>
      find_hotel hotels hid = Some h \<longrightarrow>
      find_customer customers cid \<noteq> None \<longrightarrow>
      mk_reservation rid hid cid ci co n = Inr r \<longrightarrow>
      fst (create_reservation lib rid hid cid ci co n d) =
        (let available = rooms_total h -
           sum_list (map rooms
             (filter (\<lambda>r. res_hotel_id r = hid \<and> overlaps (check_in r) (check_out r) ci co)
                rs))
         in if n > available then Failed (InsufficientCapacity hid n available)
            else Succeeded))"
proof (intro conjI impI)
  show "rooms_booked_for_hotel rs hid ci co =
     sum_list (map rooms
       (filter (\<lambda>r. res_hotel_id r = hid \<and> overlaps (check_in r) (check_out r) ci co) rs))"
    by (rule rooms_booked_for_hotel_sum)
next
  assume H: "fst (load_hotels lib d) = Inr hotels"
    and C: "fst (load_customers lib d) = Inr customers"
    and R: "fst (load_reservations lib d) = Inr rs"
    and new: "find_reservation rs rid = None"
    and h: "find_hotel hotels hid = Some h"
    and c: "find_customer customers cid \<noteq> None"
    and r: "mk_reservation rid hid cid ci co n = Inr r"
  have "rooms r = n" using mk_reservation_Inr[OF r] by auto
  then show "fst (create_reservation lib rid hid cid ci co n d) =
        (let available = rooms_total h -
           sum_list (map rooms
             (filter (\<lambda>r. res_hotel_id r = hid \<and> overlaps (check_in r) (check_out r) ci co)
                rs))
         in if n > available then Failed (InsufficientCapacity hid n available)
            else Succeeded)"
    using new h c r
    by (simp add: create_reservation_loaded[OF H C R] Let_def rooms_booked_for_hotel_sum)
qed

text \<open>
  Scenario: eight rooms are asked of \<open>H1\<close> over \<open>[2026-03-02, 2026-03-04)\<close> while \<open>R1\<close>
  holds three of its ten rooms: seven are available and the request fails.
\<close>

theorem rooms_committed_and_capacity_check_witness:
  "rooms_booked_for_hotel [reservation0] ''H1'' (2026, 3, 2) (2026, 3, 4) = 3
   \<and> fst (create_reservation lib0 ''R2'' ''H1'' ''C1'' (2026, 3, 2) (2026, 3, 4) 8 disk0)
       = Failed (InsufficientCapacity ''H1'' 8 7)"
proof -
  let ?r2 = "\<lparr>reservation_id = ''R2'', res_hotel_id = ''H1'', res_customer_id = ''C1'',
            check_in = (2026, 3, 2), check_out = (2026, 3, 4), rooms = 8\<rparr>"
  have new: "find_reservation [reservation0] ''R2'' = None" by code_simp
  have h: "find_hotel [hotel0] ''H1'' = Some hotel0" by code_simp
  have c: "find_customer [customer0] ''C1'' \<noteq> None" by code_simp
  have mk: "mk_reservation ''R2'' ''H1'' ''C1'' (2026, 3, 2) (2026, 3, 4) 8 = Inr ?r2"
    by code_simp
  have b: "rooms_booked_for_hotel [reservation0] ''H1'' (2026, 3, 2) (2026, 3, 4) = 3"
    by code_simp
  have t: "rooms_total hotel0 = 10" by (simp add: hotel0_def)
  note inst = rooms_committed_and_capacity_check
    [of "[reservation0]" "''H1''" "(2026, 3, 2)" "(2026, 3, 4)" lib0 disk0 "[hotel0]"
        "[customer0]" "''R2''" hotel0 "''C1''" 8 ?r2]
  from inst[THEN conjunct1] b
  have s: "sum_list (map rooms
       (filter (\<lambda>r. res_hotel_id r = ''H1'' \<and>
          overlaps (check_in r) (check_out r) (2026, 3, 2) (2026, 3, 4)) [reservation0])) = 3"
    by simp
  from inst[THEN conjunct2, rule_format,
      OF disk0_hotels disk0_customers disk0_reservations new h c mk]
  show ?thesis unfolding s t using b by simp
qed

section \<open>The order of the failures\<close>

lemma mk_reservation_Inl_iff:
  "(\<exists>msg. mk_reservation rid hid cid ci co n = Inl msg) \<longleftrightarrow>
     (py_strip rid = [] \<or> py_strip hid = [] \<or> py_strip cid = [] \<or> co \<le> ci \<or> n \<le> 0)"
  by (auto simp: mk_reservation_def)

text \<open>
  Claim C4. \<open>create_reservation\<close>, having loaded the three collections, returns the first
  failure that applies, in this order: \<open>DuplicateId\<close> when the reservation id is among the
  loaded reservations; \<open>NotFound\<close> of the hotel when no loaded hotel has the hotel id;
  \<open>NotFound\<close> of the customer when no loaded customer has the customer id;
  \<open>InvalidEntity\<close> when the constructor of the reservation rejects it, which is when an id
  is empty after \<open>strip()\<close>, or \<open>check_out \<le> check_in\<close>, or \<open>rooms \<le> 0\<close>;
  \<open>InsufficientCapacity\<close> when the rooms asked exceed the available ones. It succeeds
  exactly when none of them applies.
\<close>

theorem create_reservation_failure_order:
  assumes H: "fst (load_hotels lib d) = Inr hotels"
    and C: "fst (load_customers lib d) = Inr customers"
    and R: "fst (load_reservations lib d) = Inr reservations"
  shows "fst (create_reservation lib rid hid cid ci co n d) =
      (if rid \<in> reservation_id ` set reservations
         then Failed (DuplicateId Reservation rid)
       else case find_hotel hotels hid of
         None \<Rightarrow> Failed (NotFound Hotel hid)
       | Some h \<Rightarrow>
           if cid \<notin> customer_id ` set customers then Failed (NotFound Customer cid)
           else case mk_reservation rid hid cid ci co n of
             Inl msg \<Rightarrow> Failed (InvalidEntity msg)
           | Inr r \<Rightarrow>
               if n > rooms_total h - rooms_booked_for_hotel reservations hid ci co
               then Failed (InsufficientCapacity hid n
                      (rooms_total h - rooms_booked_for_hotel reservations hid ci co))
               else Succeeded)
    \<and> (find_hotel hotels hid = None \<longleftrightarrow> hid \<notin> hotel_id ` set hotels)
    \<and> ((\<exists>msg. mk_reservation rid hid cid ci co n = Inl msg) \<longleftrightarrow>
         (py_strip rid = [] \<or> py_strip hid = [] \<or> py_strip cid = [] \<or> co \<le> ci \<or> n \<le> 0))
    \<and> (fst (create_reservation lib rid hid cid ci co n d) = Succeeded \<longleftrightarrow>
         rid \<notin> reservation_id ` set reservations
         \<and> hid \<in> hotel_id ` set hotels
         \<and> cid \<in> customer_id ` set customers
         \<and> \<not> (py_strip rid = [] \<or> py_strip hid = [] \<or> py_strip cid = [] \<or> co \<le> ci \<or> n \<le> 0)
         \<and> (\<exists>h. find_hotel hotels hid = Some h
                \<and> n \<le> rooms_total h - rooms_booked_for_hotel reservations hid ci co))"
proof -
  have rooms_n: "rooms r = n" if "mk_reservation rid hid cid ci co n = Inr r" for r
    using mk_reservation_Inr[OF that] by auto
  have first: "fst (create_reservation lib rid hid cid ci co n d) =
      (if rid \<in> reservation_id ` set reservations
         then Failed (DuplicateId Reservation rid)
       else case find_hotel hotels hid of
         None \<Rightarrow> Failed (NotFound Hotel hid)
       | Some h \<Rightarrow>
           if cid \<notin> customer_id ` set customers then Failed (NotFound Customer cid)
           else case mk_reservation rid hid cid ci co n of
             Inl msg \<Rightarrow> Failed (InvalidEntity msg)
           | Inr r \<Rightarrow>
               if n > rooms_total h - rooms_booked_for_hotel reservations hid ci co
               then Failed (InsufficientCapacity hid n
                      (rooms_total h - rooms_booked_for_hotel reservations hid ci co))
               else Succeeded)"
    using find_reservation_None[of reservations rid] find_customer_None[of customers cid]
    by (auto simp: create_reservation_loaded[OF H C R] Let_def rooms_n
        split: option.splits sum.splits)
  have inv: "(\<exists>r. mk_reservation rid hid cid ci co n = Inr r) \<longleftrightarrow>
      \<not> (py_strip rid = [] \<or> py_strip hid = [] \<or> py_strip cid = [] \<or> co \<le> ci \<or> n \<le> 0)"
    using mk_reservation_Inl_iff[of rid hid cid ci co n]
    by (cases "mk_reservation rid hid cid ci co n") auto
  have last: "fst (create_reservation lib rid hid cid ci co n d) = Succeeded \<longleftrightarrow>
         rid \<notin> reservation_id ` set reservations
         \<and> hid \<in> hotel_id ` set hotels
         \<and> cid \<in> customer_id ` set customers
         \<and> \<not> (py_strip rid = [] \<or> py_strip hid = [] \<or> py_strip cid = [] \<or> co \<le> ci \<or> n \<le> 0)
         \<and> (\<exists>h. find_hotel hotels hid = Some h
                \<and> n \<le> rooms_total h - rooms_booked_for_hotel reservations hid ci co)"
    unfolding first inv[symmetric]
    using find_hotel_None[of hotels hid]
    by (auto split: option.splits sum.splits)
  from first find_hotel_None[of hotels hid] mk_reservation_Inl_iff[of rid hid cid ci co n] last
  show ?thesis by blast
qed


text \<open>
  Scenario: a stay with \<open>check_in = check_out\<close> at an existing hotel for an existing
  customer fails validation; with the id \<open>R1\<close>, which exists, the same request is a
  duplicate first.
\<close>

theorem create_reservation_failure_order_witness:
  "fst (create_reservation lib0 ''R2'' ''H1'' ''C1'' (2026, 3, 5) (2026, 3, 5) 1 disk0)
     = Failed (InvalidEntity ''check_out must be after check_in.'')
   \<and> fst (create_reservation lib0 ''R1'' ''H1'' ''C1'' (2026, 3, 5) (2026, 3, 5) 1 disk0)
     = Failed (DuplicateId Reservation ''R1'')"
proof -
  have ids: "''R2'' \<notin> reservation_id ` set [reservation0]"
    "''R1'' \<in> reservation_id ` set [reservation0]"
    "''C1'' \<in> customer_id ` set [customer0]"
    by (simp_all add: reservation0_def customer0_def)
  have h: "find_hotel [hotel0] ''H1'' = Some hotel0" by code_simp
  have mk: "mk_reservation ''R2'' ''H1'' ''C1'' (2026, 3, 5) (2026, 3, 5) 1
      = Inl ''check_out must be after check_in.''"
    by code_simp
  from create_reservation_failure_order
    [OF disk0_hotels disk0_customers disk0_reservations,
      of "''R2''" "''H1''" "''C1''" "(2026, 3, 5)" "(2026, 3, 5)" 1, THEN conjunct1]
  have a: "fst (create_reservation lib0 ''R2'' ''H1'' ''C1'' (2026, 3, 5) (2026, 3, 5) 1 disk0)
     = Failed (InvalidEntity ''check_out must be after check_in.'')"
    unfolding h mk using ids by simp
  from create_reservation_failure_order
    [OF disk0_hotels disk0_customers disk0_reservations,
      of "''R1''" "''H1''" "''C1''" "(2026, 3, 5)" "(2026, 3, 5)" 1, THEN conjunct1]
  have b: "fst (create_reservation lib0 ''R1'' ''H1'' ''C1'' (2026, 3, 5) (2026, 3, 5) 1 disk0)
     = Failed (DuplicateId Reservation ''R1'')"
    using ids by simp
  from a b show ?thesis by simp
qed

section \<open>Cancelling\<close>

lemma load_hotels_eq:
  "load_hotels lib d = (fst (load_hotels lib d), ensure_file_exists HOTELS_PATH d)"
  unfolding load_hotels_def by (rule load_from_eq)

lemma load_customers_eq:
  "load_customers lib d = (fst (load_customers lib d), ensure_file_exists CUSTOMERS_PATH d)"
  unfolding load_customers_def by (rule load_from_eq)

lemma load_reservations_eq:
  "load_reservations lib d =
     (fst (load_reservations lib d), ensure_file_exists RESERVATIONS_PATH d)"
  unfolding load_reservations_def by (rule load_from_eq)

lemma length_filter_eq_iff: "length (filter P xs) = length xs \<longleftrightarrow> (\<forall>x \<in> set xs. P x)"
proof (induction xs)
  case Nil
  then show ?case by simp
next
  case (Cons x xs)
  have le: "length (filter P xs) \<le> length xs" by (rule length_filter_le)
  show ?case
  proof (cases "P x")
    case True
    with Cons show ?thesis by simp
  next
    case False
    from le have "length (filter P xs) \<noteq> Suc (length xs)" by linarith
    with False show ?thesis by auto
  qed
qed

lemma cancel_reservation_loaded:
  assumes R: "fst (load_reservations lib d) = Inr reservations"
  shows "cancel_reservation lib rid d =
    (if rid \<in> reservation_id ` set reservations
     then (Succeeded,
           save_reservations (filter (\<lambda>r. reservation_id r \<noteq> rid) reservations)
             (ensure_file_exists RESERVATIONS_PATH d))
     else (Failed (NotFound Reservation rid), ensure_file_exists RESERVATIONS_PATH d))"
proof -
  have l: "load_reservations lib d = (Inr reservations, ensure_file_exists RESERVATIONS_PATH d)"
    using load_reservations_eq[of lib d] R by simp
  show ?thesis
    by (auto simp: cancel_reservation_def l Let_def length_filter_eq_iff)
qed

lemma fst_load_reservations_save:
  assumes "\<forall>r \<in> set rs. valid_reservation r"
  shows "fst (load_reservations lib (save_reservations rs d)) = Inr rs"
  unfolding load_reservations_def save_reservations_def
  by (rule fst_load_from_write) (simp add: assms reservation_from_dict_to_dict)

text \<open>
  Claim C5. \<open>cancel_reservation\<close>, having loaded the reservations, succeeds exactly when
  one of them has the id. Then the reservations file is rewritten with the loaded
  reservations without those of that id, loading it again gives that list, and a second
  call with the same id fails with \<open>NotFound\<close>. Otherwise the call fails with
  \<open>NotFound\<close> and the stores are kept.
\<close>

theorem cancel_reservation_once:
  assumes R: "fst (load_reservations lib d) = Inr reservations"
  shows "(fst (cancel_reservation lib rid d) = Succeeded
            \<longleftrightarrow> rid \<in> reservation_id ` set reservations)
    \<and> (rid \<in> reservation_id ` set reservations \<longrightarrow>
          snd (cancel_reservation lib rid d) RESERVATIONS_PATH =
            Some (Json (JArr (map JObj (map reservation_to_dict
              (filter (\<lambda>r. reservation_id r \<noteq> rid) reservations)))))
          \<and> fst (load_reservations lib (snd (cancel_reservation lib rid d))) =
              Inr (filter (\<lambda>r. reservation_id r \<noteq> rid) reservations)
          \<and> fst (cancel_reservation lib rid (snd (cancel_reservation lib rid d))) =
              Failed (NotFound Reservation rid))
    \<and> (rid \<notin> reservation_id ` set reservations \<longrightarrow>
          fst (cancel_reservation lib rid d) = Failed (NotFound Reservation rid)
          \<and> stores_kept d (snd (cancel_reservation lib rid d)))"
proof -
  let ?rs' = "filter (\<lambda>r. reservation_id r \<noteq> rid) reservations"
  let ?d1 = "ensure_file_exists RESERVATIONS_PATH d"
  note c = cancel_reservation_loaded[OF R, of rid]
  have valid: "\<forall>r \<in> set ?rs'. valid_reservation r"
    using load_reservations_valid[OF R] by simp
  have again: "fst (load_reservations lib (save_reservations ?rs' ?d1)) = Inr ?rs'"
    by (rule fst_load_reservations_save[OF valid])
  have gone: "rid \<notin> reservation_id ` set ?rs'" by auto
  have second: "fst (cancel_reservation lib rid (save_reservations ?rs' ?d1)) =
      Failed (NotFound Reservation rid)"
    using cancel_reservation_loaded[OF again, of rid] gone by simp
  show ?thesis
    using again second
    by (simp add: c save_reservations_def write_json_list_apply stores_kept_ensure)
qed

text \<open>
  Scenario: cancelling \<open>R1\<close> twice on \<open>disk0\<close> succeeds, then fails with \<open>NotFound\<close>; the
  first call leaves an empty array of reservations.
\<close>

theorem cancel_reservation_once_witness:
  "fst (cancel_reservation lib0 ''R1'' disk0) = Succeeded
   \<and> snd (cancel_reservation lib0 ''R1'' disk0) RESERVATIONS_PATH = Some (Json (JArr []))
   \<and> fst (cancel_reservation lib0 ''R1'' (snd (cancel_reservation lib0 ''R1'' disk0)))
       = Failed (NotFound Reservation ''R1'')
   \<and> fst (cancel_reservation lib0 ''R7'' disk0) = Failed (NotFound Reservation ''R7'')
   \<and> stores_kept disk0 (snd (cancel_reservation lib0 ''R7'' disk0))"
proof -
  have ids: "''R1'' \<in> reservation_id ` set [reservation0]"
    "''R7'' \<notin> reservation_id ` set [reservation0]"
    by (simp_all add: reservation0_def)
  have f: "filter (\<lambda>r. reservation_id r \<noteq> ''R1'') [reservation0] = []"
    by (simp add: reservation0_def)
  from cancel_reservation_once[OF disk0_reservations, of "''R1''"]
       cancel_reservation_once[OF disk0_reservations, of "''R7''"]
  show ?thesis using ids unfolding f by simp
qed

section \<open>What a failing service leaves on the disk\<close>

lemma stores_kept_ensure3:
  "stores_kept d (ensure_file_exists RESERVATIONS_PATH
     (ensure_file_exists CUSTOMERS_PATH (ensure_file_exists HOTELS_PATH d)))"
  by (blast intro: stores_kept_trans stores_kept_ensure)

lemma create_hotel_failed:
  assumes "fst (create_hotel lib hid nm rt d) \<noteq> Succeeded"
  shows "snd (create_hotel lib hid nm rt d) = ensure_file_exists HOTELS_PATH d"
proof -
  obtain res where l: "load_hotels lib d = (res, ensure_file_exists HOTELS_PATH d)"
    using load_hotels_eq by blast
  from assms show ?thesis
    by (cases res) (auto simp: create_hotel_def l split: if_splits sum.splits)
qed

lemma delete_hotel_failed:
  assumes "fst (delete_hotel lib hid d) \<noteq> Succeeded"
  shows "snd (delete_hotel lib hid d) = ensure_file_exists HOTELS_PATH d"
proof -
  obtain res where l: "load_hotels lib d = (res, ensure_file_exists HOTELS_PATH d)"
    using load_hotels_eq by blast
  from assms show ?thesis
    by (cases res) (auto simp: delete_hotel_def l Let_def split: if_splits)
qed

lemma modify_hotel_failed:
  assumes "fst (modify_hotel lib hid nm rt d) \<noteq> Succeeded"
  shows "snd (modify_hotel lib hid nm rt d) = ensure_file_exists HOTELS_PATH d"
proof -
  obtain res where l: "load_hotels lib d = (res, ensure_file_exists HOTELS_PATH d)"
    using load_hotels_eq by blast
  from assms show ?thesis
    by (cases res) (auto simp: modify_hotel_def l Let_def split: if_splits option.splits sum.splits)
qed

lemma create_customer_failed:
  assumes "fst (create_customer lib cid nm em d) \<noteq> Succeeded"
  shows "snd (create_customer lib cid nm em d) = ensure_file_exists CUSTOMERS_PATH d"
proof -
  obtain res where l: "load_customers lib d = (res, ensure_file_exists CUSTOMERS_PATH d)"
    using load_customers_eq by blast
  from assms show ?thesis
    by (cases res) (auto simp: create_customer_def l split: if_splits sum.splits)
qed

lemma delete_customer_failed:
  assumes "fst (delete_customer lib cid d) \<noteq> Succeeded"
  shows "snd (delete_customer lib cid d) = ensure_file_exists CUSTOMERS_PATH d"
proof -
  obtain res where l: "load_customers lib d = (res, ensure_file_exists CUSTOMERS_PATH d)"
    using load_customers_eq by blast
  from assms show ?thesis
    by (cases res) (auto simp: delete_customer_def l Let_def split: if_splits)
qed

lemma modify_customer_failed:
  assumes "fst (modify_customer lib cid nm em d) \<noteq> Succeeded"
  shows "snd (modify_customer lib cid nm em d) = ensure_file_exists CUSTOMERS_PATH d"
proof -
  obtain res where l: "load_customers lib d = (res, ensure_file_exists CUSTOMERS_PATH d)"
    using load_customers_eq by blast
  from assms show ?thesis
    by (cases res)
      (auto simp: modify_customer_def l Let_def split: if_splits option.splits sum.splits)
qed

lemma cancel_reservation_failed:
  assumes "fst (cancel_reservation lib rid d) \<noteq> Succeeded"
  shows "snd (cancel_reservation lib rid d) = ensure_file_exists RESERVATIONS_PATH d"
proof -
  obtain res where l: "load_reservations lib d = (res, ensure_file_exists RESERVATIONS_PATH d)"
    using load_reservations_eq by blast
  from assms show ?thesis
    by (cases res) (auto simp: cancel_reservation_def l Let_def split: if_splits)
qed

lemma create_reservation_raised_or_loaded:
  "(\<exists>ex d''. create_reservation lib rid hid cid ci co n d = (Raised ex, d'') \<and> stores_kept d d'')
   \<or> (\<exists>hotels customers reservations.
        fst (load_hotels lib d) = Inr hotels \<and> fst (load_customers lib d) = Inr customers
        \<and> fst (load_reservations lib d) = Inr reservations)"
proof -
  let ?d1 = "ensure_file_exists HOTELS_PATH d"
  let ?d2 = "ensure_file_exists CUSTOMERS_PATH ?d1"
  let ?d3 = "ensure_file_exists RESERVATIONS_PATH ?d2"
  have k1: "stores_kept d ?d1" by (rule stores_kept_ensure)
  have k2: "stores_kept d ?d2" by (blast intro: stores_kept_trans stores_kept_ensure)
  have k3: "stores_kept d ?d3" by (rule stores_kept_ensure3)
  obtain rh where lh: "load_hotels lib d = (rh, ?d1)" using load_hotels_eq by blast
  obtain rc where lc: "load_customers lib ?d1 = (rc, ?d2)" using load_customers_eq by blast
  obtain rr where lr: "load_reservations lib ?d2 = (rr, ?d3)" using load_reservations_eq by blast
  have ec: "fst (load_customers lib d) = rc"
  proof -
    have "fst (load_customers lib ?d1) = fst (load_customers lib d)"
      unfolding load_customers_def
      by (rule fst_load_from_cong) (rule persisted_ensure_file_exists)
    with lc show ?thesis by simp
  qed
  have er: "fst (load_reservations lib d) = rr"
  proof -
    have "fst (load_reservations lib ?d2) = fst (load_reservations lib d)"
      unfolding load_reservations_def
      by (rule fst_load_from_cong) (simp add: persisted_ensure_file_exists)
    with lr show ?thesis by simp
  qed
  have eh: "fst (load_hotels lib d) = rh" using lh by simp
  show ?thesis
  proof (cases rh)
    case (Inl ex)
    then have "create_reservation lib rid hid cid ci co n d = (Raised ex, ?d1)"
      by (simp add: create_reservation_def lh)
    with k1 show ?thesis by blast
  next
    case h: (Inr hotels)
    show ?thesis
    proof (cases rc)
      case (Inl ex)
      then have "create_reservation lib rid hid cid ci co n d = (Raised ex, ?d2)"
        by (simp add: create_reservation_def lh lc h)
      with k2 show ?thesis by blast
    next
      case c: (Inr customers)
      show ?thesis
      proof (cases rr)
        case (Inl ex)
        then have "create_reservation lib rid hid cid ci co n d = (Raised ex, ?d3)"
          by (simp add: create_reservation_def lh lc lr h c)
        with k3 show ?thesis by blast
      next
        case (Inr reservations)
        with h c eh ec er show ?thesis by simp
      qed
    qed
  qed
qed

lemma create_reservation_failed:
  assumes "fst (create_reservation lib rid hid cid ci co n d) \<noteq> Succeeded"
  shows "stores_kept d (snd (create_reservation lib rid hid cid ci co n d))"
  using create_reservation_raised_or_loaded[of lib rid hid cid ci co n d]
proof (elim disjE exE conjE)
  fix ex d''
  assume "create_reservation lib rid hid cid ci co n d = (Raised ex, d'')" "stores_kept d d''"
  then show ?thesis by simp
next
  fix hotels customers reservations
  assume H: "fst (load_hotels lib d) = Inr hotels"
    and C: "fst (load_customers lib d) = Inr customers"
    and R: "fst (load_reservations lib d) = Inr reservations"
  from assms have "snd (create_reservation lib rid hid cid ci co n d) =
      ensure_file_exists RESERVATIONS_PATH
        (ensure_file_exists CUSTOMERS_PATH (ensure_file_exists HOTELS_PATH d))"
    unfolding create_reservation_loaded[OF H C R]
    by (auto simp: Let_def split: if_splits option.splits sum.splits)
  then show ?thesis by (simp add: stores_kept_ensure3)
qed

text \<open>
  Claim C6. A service that does not return success leaves every store as it was: the
  collection each store holds is the same after the call, and a store file that existed
  is untouched (a file that did not exist may have been created, holding the empty array,
  by the load). This holds for the create, delete and modify services of hotels and of
  customers and for the create and cancel services of reservations, whether the call
  returns a failure or is left by an exception; so a store is rewritten only by a call
  that passes every check and returns success.
\<close>

theorem failure_keeps_stores:
  "(fst (create_hotel lib hid nm rt d) \<noteq> Succeeded \<longrightarrow>
      stores_kept d (snd (create_hotel lib hid nm rt d)))
   \<and> (fst (delete_hotel lib hid d) \<noteq> Succeeded \<longrightarrow>
      stores_kept d (snd (delete_hotel lib hid d)))
   \<and> (fst (modify_hotel lib hid onm ort d) \<noteq> Succeeded \<longrightarrow>
      stores_kept d (snd (modify_hotel lib hid onm ort d)))
   \<and> (fst (create_customer lib cid nm em d) \<noteq> Succeeded \<longrightarrow>
      stores_kept d (snd (create_customer lib cid nm em d)))
   \<and> (fst (delete_customer lib cid d) \<noteq> Succeeded \<longrightarrow>
      stores_kept d (snd (delete_customer lib cid d)))
   \<and> (fst (modify_customer lib cid onm oem d) \<noteq> Succeeded \<longrightarrow>
      stores_kept d (snd (modify_customer lib cid onm oem d)))
   \<and> (fst (create_reservation lib rid hid cid ci co n d) \<noteq> Succeeded \<longrightarrow>
      stores_kept d (snd (create_reservation lib rid hid cid ci co n d)))
   \<and> (fst (cancel_reservation lib rid d) \<noteq> Succeeded \<longrightarrow>
      stores_kept d (snd (cancel_reservation lib rid d)))"
  by (simp add: create_hotel_failed delete_hotel_failed modify_hotel_failed
      create_customer_failed delete_customer_failed modify_customer_failed
      cancel_reservation_failed create_reservation_failed stores_kept_ensure)

text \<open>
  Scenario C and its like on \<open>disk0\<close>: a reservation for the unknown hotel \<open>H404\<close>, a
  duplicate hotel, an unknown hotel to delete or modify, a customer with a bad email,
  an unknown customer to delete or modify, and an unknown reservation to cancel.
\<close>

theorem failure_keeps_stores_witness:
  "fst (create_reservation lib0 ''R2'' ''H404'' ''C1'' (2026, 3, 1) (2026, 3, 5) 1 disk0)
     = Failed (NotFound Hotel ''H404'')
   \<and> stores_kept disk0
       (snd (create_reservation lib0 ''R2'' ''H404'' ''C1'' (2026, 3, 1) (2026, 3, 5) 1 disk0))
   \<and> stores_kept disk0 (snd (create_hotel lib0 ''H1'' ''Hotel Uno'' 10 disk0))
   \<and> stores_kept disk0 (snd (delete_hotel lib0 ''H404'' disk0))
   \<and> stores_kept disk0 (snd (modify_hotel lib0 ''H404'' (Some ''X'') None disk0))
   \<and> stores_kept disk0 (snd (create_customer lib0 ''C2'' ''Edgar'' ''not-an-email'' disk0))
   \<and> stores_kept disk0 (snd (delete_customer lib0 ''C404'' disk0))
   \<and> stores_kept disk0 (snd (modify_customer lib0 ''C404'' (Some ''X'') None disk0))
   \<and> stores_kept disk0 (snd (cancel_reservation lib0 ''R7'' disk0))"
proof -
  have f: "fst (create_reservation lib0 ''R2'' ''H404'' ''C1'' (2026, 3, 1) (2026, 3, 5) 1 disk0)
     = Failed (NotFound Hotel ''H404'')"
    "fst (create_hotel lib0 ''H1'' ''Hotel Uno'' 10 disk0) = Failed (DuplicateId Hotel ''H1'')"
    "fst (delete_hotel lib0 ''H404'' disk0) = Failed (NotFound Hotel ''H404'')"
    "fst (modify_hotel lib0 ''H404'' (Some ''X'') None disk0) = Failed (NotFound Hotel ''H404'')"
    "fst (create_customer lib0 ''C2'' ''Edgar'' ''not-an-email'' disk0)
       = Failed (InvalidEntity
           ''email must be a valid email-like string (must contain '@').'')"
    "fst (delete_customer lib0 ''C404'' disk0) = Failed (NotFound Customer ''C404'')"
    "fst (modify_customer lib0 ''C404'' (Some ''X'') None disk0) = Failed (NotFound Customer ''C404'')"
    "fst (cancel_reservation lib0 ''R7'' disk0) = Failed (NotFound Reservation ''R7'')"
    by code_simp+
  from failure_keeps_stores
    [where lib = lib0 and d = disk0 and hid = "''H404''" and onm = "Some ''X''"
       and ort = None and cid = "''C404''" and oem = None and rid = "''R7''"]
  have a: "stores_kept disk0 (snd (delete_hotel lib0 ''H404'' disk0))"
    "stores_kept disk0 (snd (modify_hotel lib0 ''H404'' (Some ''X'') None disk0))"
    "stores_kept disk0 (snd (delete_customer lib0 ''C404'' disk0))"
    "stores_kept disk0 (snd (modify_customer lib0 ''C404'' (Some ''X'') None disk0))"
    "stores_kept disk0 (snd (cancel_reservation lib0 ''R7'' disk0))"
    using f by simp_all
  from failure_keeps_stores
    [where lib = lib0 and d = disk0 and hid = "''H1''" and nm = "''Hotel Uno''" and rt = 10]
  have b1: "stores_kept disk0 (snd (create_hotel lib0 ''H1'' ''Hotel Uno'' 10 disk0))"
    using f by simp
  from failure_keeps_stores
    [where lib = lib0 and d = disk0 and cid = "''C2''" and nm = "''Edgar''"
       and em = "''not-an-email''"]
  have b2: "stores_kept disk0 (snd (create_customer lib0 ''C2'' ''Edgar'' ''not-an-email'' disk0))"
    using f by simp
  from failure_keeps_stores
    [where lib = lib0 and d = disk0 and hid = "''H404''" and cid = "''C1''" and rid = "''R2''"
       and ci = "(2026, 3, 1)" and co = "(2026, 3, 5)" and n = 1]
  have c: "stores_kept disk0
       (snd (create_reservation lib0 ''R2'' ''H404'' ''C1'' (2026, 3, 1) (2026, 3, 5) 1 disk0))"
    using f by simp
  from f(1) a b1 b2 c show ?thesis by simp
qed

section \<open>What \<open>create_reservation\<close> writes\<close>

lemma store_kept_save_reservations:
  "p \<noteq> RESERVATIONS_PATH \<Longrightarrow> store_kept d (save_reservations rs d) p"
  unfolding save_reservations_def by (rule store_kept_write)

text \<open>
  Claim C7. Every call of \<open>create_reservation\<close>, whatever its outcome, keeps the hotels
  store and the customers store. A call that returns success has loaded the reservations
  and rewrites the reservations file as a whole: the loaded reservations followed by the
  new one.
\<close>

theorem create_reservation_writes_reservations_only:
  "store_kept d (snd (create_reservation lib rid hid cid ci co n d)) HOTELS_PATH
   \<and> store_kept d (snd (create_reservation lib rid hid cid ci co n d)) CUSTOMERS_PATH
   \<and> (fst (create_reservation lib rid hid cid ci co n d) = Succeeded \<longrightarrow>
        (\<exists>reservations.
           fst (load_reservations lib d) = Inr reservations
           \<and> snd (create_reservation lib rid hid cid ci co n d) RESERVATIONS_PATH =
               Some (Json (JArr (map JObj (map reservation_to_dict
                 (reservations @
                    [\<lparr>reservation_id = rid, res_hotel_id = hid, res_customer_id = cid,
                      check_in = ci, check_out = co, rooms = n\<rparr>])))))))"
  using create_reservation_raised_or_loaded[of lib rid hid cid ci co n d]
proof (elim disjE exE conjE)
  fix ex d''
  assume "create_reservation lib rid hid cid ci co n d = (Raised ex, d'')" "stores_kept d d''"
  then show ?thesis by (simp add: stores_kept_def)
next
  fix hotels customers reservations
  assume H: "fst (load_hotels lib d) = Inr hotels"
    and C: "fst (load_customers lib d) = Inr customers"
    and R: "fst (load_reservations lib d) = Inr reservations"
  let ?d3 = "ensure_file_exists RESERVATIONS_PATH
        (ensure_file_exists CUSTOMERS_PATH (ensure_file_exists HOTELS_PATH d))"
  let ?r = "\<lparr>reservation_id = rid, res_hotel_id = hid, res_customer_id = cid,
                      check_in = ci, check_out = co, rooms = n\<rparr>"
  let ?call = "create_reservation lib rid hid cid ci co n d"
  have k3: "store_kept d ?d3 p" for p
    using stores_kept_ensure3[of d] by (cases p) (simp_all add: stores_kept_def)
  have mk: "r = ?r" if "mk_reservation rid hid cid ci co n = Inr r" for r
    using mk_reservation_Inr[OF that] by simp
  have disk: "snd ?call = ?d3 \<and> fst ?call \<noteq> Succeeded
      \<or> snd ?call = save_reservations (reservations @ [?r]) ?d3"
    unfolding create_reservation_loaded[OF H C R]
    by (auto simp: Let_def dest: mk split: if_splits option.splits sum.splits)
  then show ?thesis
  proof
    assume "snd ?call = ?d3 \<and> fst ?call \<noteq> Succeeded"
    then show ?thesis using k3 by simp
  next
    assume s: "snd ?call = save_reservations (reservations @ [?r]) ?d3"
    have "store_kept d (snd ?call) HOTELS_PATH" "store_kept d (snd ?call) CUSTOMERS_PATH"
      unfolding s
      by (rule store_kept_trans[OF k3 store_kept_save_reservations], simp)+
    moreover have "snd ?call RESERVATIONS_PATH =
        Some (Json (JArr (map JObj (map reservation_to_dict (reservations @ [?r])))))"
      unfolding s by (simp add: save_reservations_def write_json_list_apply)
    ultimately show ?thesis using R by blast
  qed
qed

text \<open>
  Scenario A on \<open>disk0\<close>, for a second reservation: the call succeeds, the reservations
  file becomes \<open>R1\<close>, \<open>R2\<close> (the invalid records are gone), the other two files are as
  they were.
\<close>

theorem create_reservation_writes_reservations_only_witness:
  "fst (create_reservation lib0 ''R2'' ''H1'' ''C1'' (2026, 3, 2) (2026, 3, 4) 2 disk0) = Succeeded
   \<and> store_kept disk0
        (snd (create_reservation lib0 ''R2'' ''H1'' ''C1'' (2026, 3, 2) (2026, 3, 4) 2 disk0))
        HOTELS_PATH
   \<and> store_kept disk0
        (snd (create_reservation lib0 ''R2'' ''H1'' ''C1'' (2026, 3, 2) (2026, 3, 4) 2 disk0))
        CUSTOMERS_PATH
   \<and> snd (create_reservation lib0 ''R2'' ''H1'' ''C1'' (2026, 3, 2) (2026, 3, 4) 2 disk0)
        RESERVATIONS_PATH =
       Some (Json (JArr (map JObj (map reservation_to_dict
         [reservation0,
          \<lparr>reservation_id = ''R2'', res_hotel_id = ''H1'', res_customer_id = ''C1'',
           check_in = (2026, 3, 2), check_out = (2026, 3, 4), rooms = 2\<rparr>]))))"
proof -
  have s: "fst (create_reservation lib0 ''R2'' ''H1'' ''C1'' (2026, 3, 2) (2026, 3, 4) 2 disk0)
      = Succeeded"
    by code_simp
  from create_reservation_writes_reservations_only
    [of disk0 lib0 "''R2''" "''H1''" "''C1''" "(2026, 3, 2)" "(2026, 3, 4)" 2]
  show ?thesis using s disk0_reservations by simp
qed

section \<open>Serialization round trip\<close>











section \<open>Loading a store\<close>

lemma cleaned_filter:
  "cleaned items = List.map_filter (\<lambda>j. case j of JObj x \<Rightarrow> Some x | _ \<Rightarrow> None) items"
  by (induction items rule: cleaned.induct) (simp_all add: List.map_filter_simps)

text \<open>
  On a file that decodes, \<open>read_json_list\<close> returns: the empty list when the file does
  not exist, is empty, is malformed or does not hold an array, and the objects of the
  array, in their order, otherwise.
\<close>

lemma read_json_list_on_decodable:
  assumes "d p \<noteq> Some Undecodable"
  shows "fst (read_json_list p d) =
     Inr (case d p of
            Some (Json (JArr items)) \<Rightarrow>
              List.map_filter (\<lambda>j. case j of JObj x \<Rightarrow> Some x | _ \<Rightarrow> None) items
          | _ \<Rightarrow> [])"
  using assms
  by (simp add: fst_read_json_list persisted_def cleaned_filter List.map_filter_simps
      split: option.splits file_content.splits json.splits)

lemma read_json_list_scenario_E:
  "fst (read_json_list p (d(p \<mapsto> Json (JArr [JObj x, JInt 123])))) = Inr [x]"
  by (simp add: fst_read_json_list persisted_def)

text \<open>
  Claim C9 says that the load of a store never raises. It does on a file whose bytes are
  not UTF-8: \<open>read_text\<close> raises \<open>UnicodeDecodeError\<close>, which is neither the
  \<open>JSONDecodeError\<close> nor the \<open>OSError\<close> that \<open>read_json_list\<close> handles, so the exception
  leaves \<open>read_json_list\<close>, the load and the service that called it.
\<close>

theorem read_json_list_raises_on_undecodable:
  "fst (read_json_list RESERVATIONS_PATH (disk0(RESERVATIONS_PATH \<mapsto> Undecodable)))
     = Inl UnicodeDecodeError
   \<and> fst (load_reservations lib0 (disk0(RESERVATIONS_PATH \<mapsto> Undecodable)))
     = Inl UnicodeDecodeError
   \<and> fst (cancel_reservation lib0 ''R1'' (disk0(RESERVATIONS_PATH \<mapsto> Undecodable)))
     = Raised UnicodeDecodeError"
  by code_simp

section \<open>What a successful service leaves in its file\<close>

lemma file_valid_written:
  assumes "\<forall>e \<in> set es. f (g e) = Inr e"
  shows "file_valid f (write_json_list p (map g es) d p)"
  using assms
  by (simp add: write_json_list_apply file_valid_def list_all_iff record_ok_def)

lemma file_valid_save_hotels:
  "\<forall>h \<in> set hs. valid_hotel h \<Longrightarrow>
     file_valid (hotel_from_dict lib) (save_hotels hs d HOTELS_PATH)"
  unfolding save_hotels_def
  by (rule file_valid_written) (simp add: hotel_from_dict_to_dict)

lemma file_valid_save_customers:
  "\<forall>c \<in> set cs. valid_customer c \<Longrightarrow>
     file_valid (customer_from_dict lib) (save_customers cs d CUSTOMERS_PATH)"
  unfolding save_customers_def
  by (rule file_valid_written) (simp add: customer_from_dict_to_dict)

lemma file_valid_save_reservations:
  "\<forall>r \<in> set rs. valid_reservation r \<Longrightarrow>
     file_valid (reservation_from_dict lib) (save_reservations rs d RESERVATIONS_PATH)"
  unfolding save_reservations_def
  by (rule file_valid_written) (simp add: reservation_from_dict_to_dict)

lemma file_valid_no_invalid:
  assumes "file_valid f (Some (Json (JArr items)))" and "f x = Inl ex"
  shows "JObj x \<notin> set items"
proof
  assume "JObj x \<in> set items"
  with assms(1) have "record_ok f (JObj x)" by (simp add: file_valid_def list_all_iff)
  with assms(2) show False by (simp add: record_ok_def)
qed

lemma mk_reservation_valid:
  assumes mk: "mk_reservation a b c ci co n = Inr r"
    and ci: "valid_date ci" and co: "valid_date co"
  shows "valid_reservation r"
proof -
  have req: "r = \<lparr>reservation_id = a, res_hotel_id = b, res_customer_id = c,
          check_in = ci, check_out = co, rooms = n\<rparr>"
    using mk_reservation_Inr[OF mk] by (rule conjunct1)
  have "mk_reservation (reservation_id r) (res_hotel_id r) (res_customer_id r)
          (check_in r) (check_out r) (rooms r) = Inr r"
    using mk by (simp add: req)
  moreover have "valid_date (check_in r)" "valid_date (check_out r)"
    using ci co by (simp_all add: req)
  ultimately show ?thesis unfolding valid_reservation_def by simp
qed

lemma create_hotel_valid:
  assumes "fst (create_hotel lib hid nm rt d) = Succeeded"
  shows "file_valid (hotel_from_dict lib) (snd (create_hotel lib hid nm rt d) HOTELS_PATH)"
proof -
  obtain res where l: "load_hotels lib d = (res, ensure_file_exists HOTELS_PATH d)"
    using load_hotels_eq by blast
  from assms obtain hs h where res: "res = Inr hs" and mk: "mk_hotel hid nm rt = Inr h"
    and s: "snd (create_hotel lib hid nm rt d) =
      save_hotels (hs @ [h]) (ensure_file_exists HOTELS_PATH d)"
    by (cases res) (auto simp: create_hotel_def l split: if_splits sum.splits)
  have "fst (load_hotels lib d) = Inr hs" using l res by simp
  from load_hotels_valid[OF this] mk_hotel_Inr[OF mk]
  have "\<forall>x \<in> set (hs @ [h]). valid_hotel x" by auto
  then show ?thesis unfolding s by (rule file_valid_save_hotels)
qed

lemma delete_hotel_valid:
  assumes "fst (delete_hotel lib hid d) = Succeeded"
  shows "file_valid (hotel_from_dict lib) (snd (delete_hotel lib hid d) HOTELS_PATH)"
proof -
  obtain res where l: "load_hotels lib d = (res, ensure_file_exists HOTELS_PATH d)"
    using load_hotels_eq by blast
  from assms obtain hs where res: "res = Inr hs"
    and s: "snd (delete_hotel lib hid d) =
      save_hotels (filter (\<lambda>h. hotel_id h \<noteq> hid) hs) (ensure_file_exists HOTELS_PATH d)"
    by (cases res) (auto simp: delete_hotel_def l Let_def split: if_splits)
  have "fst (load_hotels lib d) = Inr hs" using l res by simp
  from load_hotels_valid[OF this]
  have "\<forall>x \<in> set (filter (\<lambda>h. hotel_id h \<noteq> hid) hs). valid_hotel x" by auto
  then show ?thesis unfolding s by (rule file_valid_save_hotels)
qed

lemma modify_hotel_valid:
  assumes "fst (modify_hotel lib hid nm rt d) = Succeeded"
  shows "file_valid (hotel_from_dict lib) (snd (modify_hotel lib hid nm rt d) HOTELS_PATH)"
proof -
  obtain res where l: "load_hotels lib d = (res, ensure_file_exists HOTELS_PATH d)"
    using load_hotels_eq by blast
  from assms obtain hs a b k u where res: "res = Inr hs" and mk: "mk_hotel a b k = Inr u"
    and s: "snd (modify_hotel lib hid nm rt d) =
      save_hotels (map (\<lambda>x. if hotel_id x = hid then u else x) hs)
        (ensure_file_exists HOTELS_PATH d)"
    by (cases res)
      (auto simp: modify_hotel_def l Let_def split: if_splits option.splits sum.splits)
  have "fst (load_hotels lib d) = Inr hs" using l res by simp
  from load_hotels_valid[OF this] mk_hotel_Inr[OF mk]
  have "\<forall>x \<in> set (map (\<lambda>x. if hotel_id x = hid then u else x) hs). valid_hotel x" by auto
  then show ?thesis unfolding s by (rule file_valid_save_hotels)
qed

lemma create_customer_valid:
  assumes "fst (create_customer lib cid nm em d) = Succeeded"
  shows "file_valid (customer_from_dict lib)
    (snd (create_customer lib cid nm em d) CUSTOMERS_PATH)"
proof -
  obtain res where l: "load_customers lib d = (res, ensure_file_exists CUSTOMERS_PATH d)"
    using load_customers_eq by blast
  from assms obtain cs c where res: "res = Inr cs" and mk: "mk_customer cid nm em = Inr c"
    and s: "snd (create_customer lib cid nm em d) =
      save_customers (cs @ [c]) (ensure_file_exists CUSTOMERS_PATH d)"
    by (cases res) (auto simp: create_customer_def l split: if_splits sum.splits)
  have "fst (load_customers lib d) = Inr cs" using l res by simp
  from load_customers_valid[OF this] mk_customer_Inr[OF mk]
  have "\<forall>x \<in> set (cs @ [c]). valid_customer x" by auto
  then show ?thesis unfolding s by (rule file_valid_save_customers)
qed

lemma delete_customer_valid:
  assumes "fst (delete_customer lib cid d) = Succeeded"
  shows "file_valid (customer_from_dict lib) (snd (delete_customer lib cid d) CUSTOMERS_PATH)"
proof -
  obtain res where l: "load_customers lib d = (res, ensure_file_exists CUSTOMERS_PATH d)"
    using load_customers_eq by blast
  from assms obtain cs where res: "res = Inr cs"
    and s: "snd (delete_customer lib cid d) =
      save_customers (filter (\<lambda>c. customer_id c \<noteq> cid) cs)
        (ensure_file_exists CUSTOMERS_PATH d)"
    by (cases res) (auto simp: delete_customer_def l Let_def split: if_splits)
  have "fst (load_customers lib d) = Inr cs" using l res by simp
  from load_customers_valid[OF this]
  have "\<forall>x \<in> set (filter (\<lambda>c. customer_id c \<noteq> cid) cs). valid_customer x" by auto
  then show ?thesis unfolding s by (rule file_valid_save_customers)
qed

lemma modify_customer_valid:
  assumes "fst (modify_customer lib cid nm em d) = Succeeded"
  shows "file_valid (customer_from_dict lib)
    (snd (modify_customer lib cid nm em d) CUSTOMERS_PATH)"
proof -
  obtain res where l: "load_customers lib d = (res, ensure_file_exists CUSTOMERS_PATH d)"
    using load_customers_eq by blast
  from assms obtain cs a b k u where res: "res = Inr cs" and mk: "mk_customer a b k = Inr u"
    and s: "snd (modify_customer lib cid nm em d) =
      save_customers (map (\<lambda>x. if customer_id x = cid then u else x) cs)
        (ensure_file_exists CUSTOMERS_PATH d)"
    by (cases res)
      (auto simp: modify_customer_def l Let_def split: if_splits option.splits sum.splits)
  have "fst (load_customers lib d) = Inr cs" using l res by simp
  from load_customers_valid[OF this] mk_customer_Inr[OF mk]
  have "\<forall>x \<in> set (map (\<lambda>x. if customer_id x = cid then u else x) cs). valid_customer x"
    by auto
  then show ?thesis unfolding s by (rule file_valid_save_customers)
qed

lemma cancel_reservation_valid:
  assumes "fst (cancel_reservation lib rid d) = Succeeded"
  shows "file_valid (reservation_from_dict lib)
    (snd (cancel_reservation lib rid d) RESERVATIONS_PATH)"
proof -
  obtain res where l: "load_reservations lib d = (res, ensure_file_exists RESERVATIONS_PATH d)"
    using load_reservations_eq by blast
  from assms obtain rs where res: "res = Inr rs"
    and s: "snd (cancel_reservation lib rid d) =
      save_reservations (filter (\<lambda>r. reservation_id r \<noteq> rid) rs)
        (ensure_file_exists RESERVATIONS_PATH d)"
    by (cases res) (auto simp: cancel_reservation_def l Let_def split: if_splits)
  have "fst (load_reservations lib d) = Inr rs" using l res by simp
  from load_reservations_valid[OF this]
  have "\<forall>x \<in> set (filter (\<lambda>r. reservation_id r \<noteq> rid) rs). valid_reservation x" by auto
  then show ?thesis unfolding s by (rule file_valid_save_reservations)
qed

lemma create_reservation_valid:
  assumes ok: "fst (create_reservation lib rid hid cid ci co n d) = Succeeded"
    and ci: "valid_date ci" and co: "valid_date co"
  shows "file_valid (reservation_from_dict lib)
    (snd (create_reservation lib rid hid cid ci co n d) RESERVATIONS_PATH)"
  using create_reservation_raised_or_loaded[of lib rid hid cid ci co n d]
proof (elim disjE exE conjE)
  fix ex d''
  assume "create_reservation lib rid hid cid ci co n d = (Raised ex, d'')"
  with ok show ?thesis by simp
next
  fix hotels customers reservations
  assume H: "fst (load_hotels lib d) = Inr hotels"
    and C: "fst (load_customers lib d) = Inr customers"
    and R: "fst (load_reservations lib d) = Inr reservations"
  let ?d3 = "ensure_file_exists RESERVATIONS_PATH
        (ensure_file_exists CUSTOMERS_PATH (ensure_file_exists HOTELS_PATH d))"
  from ok obtain r where mk: "mk_reservation rid hid cid ci co n = Inr r"
    and s: "snd (create_reservation lib rid hid cid ci co n d) =
      save_reservations (reservations @ [r]) ?d3"
    unfolding create_reservation_loaded[OF H C R]
    by (auto simp: Let_def split: if_splits option.splits sum.splits)
  have "valid_reservation r" by (rule mk_reservation_valid[OF mk ci co])
  with load_reservations_valid[OF R]
  have "\<forall>x \<in> set (reservations @ [r]). valid_reservation x" by auto
  then show ?thesis unfolding s by (rule file_valid_save_reservations)
qed

end
